theory Spec2Isabelle
  imports Complex_Main
begin

section \<open>JavaScript numbers\<close>

text \<open>
  Every quantity of \<open>src/lib/fx-calculations.ts\<close> is a JavaScript \<open>number\<close>, a binary64
  floating-point value. The type below keeps its three special values and the rules by
  which arithmetic yields them (division by zero, \<open>0 * Infinity\<close>, \<open>Infinity - Infinity\<close>,
  the square root of a negative number, \<open>NaN\<close> absorbing every operation and failing
  every comparison). The sign of zero is not modelled: a zero divisor counts as \<open>+0\<close>.

  The operations of this section compute a finite result exactly. The section on
  binary64 arithmetic further down rounds each finite result to the nearest double, with
  overflow to infinity, and repeats the calculations whose outcome rounding decides.
  Theorems on special values, on the wiring of a result, on identities such as a product
  with one and on the ranges of the generated trades are stated of the exact operations;
  theorems on sums, quotients and the order of computed values are stated of the rounded
  ones.
\<close>

datatype number = Fin real | PInf | NInf | NaN

fun is_finite :: "number \<Rightarrow> bool" where
  "is_finite (Fin _) = True"
| "is_finite _ = False"

fun jneg :: "number \<Rightarrow> number" where
  "jneg (Fin a) = Fin (- a)"
| "jneg PInf = NInf"
| "jneg NInf = PInf"
| "jneg NaN = NaN"

fun jadd :: "number \<Rightarrow> number \<Rightarrow> number" where
  "jadd NaN _ = NaN"
| "jadd _ NaN = NaN"
| "jadd (Fin a) (Fin b) = Fin (a + b)"
| "jadd PInf NInf = NaN"
| "jadd NInf PInf = NaN"
| "jadd PInf _ = PInf"
| "jadd _ PInf = PInf"
| "jadd NInf _ = NInf"
| "jadd _ NInf = NInf"

definition jsub :: "number \<Rightarrow> number \<Rightarrow> number" where
  "jsub a b = jadd a (jneg b)"

text \<open>The sign of a value other than \<open>NaN\<close>: \<open>-1\<close>, \<open>0\<close> or \<open>1\<close>.\<close>

fun jsign :: "number \<Rightarrow> int" where
  "jsign (Fin a) = (if a < 0 then - 1 else if a = 0 then 0 else 1)"
| "jsign PInf = 1"
| "jsign NInf = - 1"
| "jsign NaN = 0"

definition signed_inf :: "int \<Rightarrow> number" where
  "signed_inf s = (if s < 0 then NInf else if s = 0 then NaN else PInf)"

fun jmul :: "number \<Rightarrow> number \<Rightarrow> number" where
  "jmul NaN _ = NaN"
| "jmul _ NaN = NaN"
| "jmul (Fin a) (Fin b) = Fin (a * b)"
| "jmul a b = signed_inf (jsign a * jsign b)"

fun jdiv :: "number \<Rightarrow> number \<Rightarrow> number" where
  "jdiv NaN _ = NaN"
| "jdiv _ NaN = NaN"
| "jdiv (Fin a) (Fin b) = (if b = 0 then signed_inf (jsign (Fin a)) else Fin (a / b))"
| "jdiv (Fin a) _ = Fin 0"
| "jdiv a (Fin b) = signed_inf (jsign a * (if b < 0 then - 1 else 1))"
| "jdiv _ _ = NaN"

fun jabs :: "number \<Rightarrow> number" where
  "jabs (Fin a) = Fin \<bar>a\<bar>"
| "jabs PInf = PInf"
| "jabs NInf = PInf"
| "jabs NaN = NaN"

fun jsqrt :: "number \<Rightarrow> number" where
  "jsqrt (Fin a) = (if a < 0 then NaN else Fin (sqrt a))"
| "jsqrt PInf = PInf"
| "jsqrt NInf = NaN"
| "jsqrt NaN = NaN"

fun jfloor :: "number \<Rightarrow> number" where
  "jfloor (Fin a) = Fin (of_int \<lfloor>a\<rfloor>)"
| "jfloor x = x"

text \<open>Comparisons: \<open><\<close>, \<open><=\<close>, \<open>>\<close> and \<open>===\<close>; each is false when an operand is \<open>NaN\<close>.\<close>

fun jlt :: "number \<Rightarrow> number \<Rightarrow> bool" where
  "jlt NaN _ = False"
| "jlt _ NaN = False"
| "jlt (Fin a) (Fin b) = (a < b)"
| "jlt _ NInf = False"
| "jlt NInf _ = True"
| "jlt PInf _ = False"
| "jlt _ PInf = True"

fun jeq :: "number \<Rightarrow> number \<Rightarrow> bool" where
  "jeq NaN _ = False"
| "jeq _ NaN = False"
| "jeq a b = (a = b)"

definition jle :: "number \<Rightarrow> number \<Rightarrow> bool" where
  "jle a b = (jlt a b \<or> jeq a b)"

definition jgt :: "number \<Rightarrow> number \<Rightarrow> bool" where
  "jgt a b = jlt b a"

text \<open>\<open>Math.min\<close> and \<open>Math.max\<close> of two arguments return \<open>NaN\<close> when either is \<open>NaN\<close>.\<close>

fun Math_min :: "number \<Rightarrow> number \<Rightarrow> number" where
  "Math_min NaN _ = NaN"
| "Math_min _ NaN = NaN"
| "Math_min a b = (if jlt b a then b else a)"

fun Math_max :: "number \<Rightarrow> number \<Rightarrow> number" where
  "Math_max NaN _ = NaN"
| "Math_max _ NaN = NaN"
| "Math_max a b = (if jlt a b then b else a)"

section \<open>Data model\<close>

datatype direction = long | short

text \<open>
  A \<open>Date\<close> holds a time value in whole milliseconds, or is invalid. \<open>new Date(v)\<close>
  clips \<open>v\<close>: a value that is not finite or lies beyond \<open>8.64e15\<close> in magnitude gives an
  invalid date, any other value is truncated towards zero.
\<close>

datatype date = ValidDate int | InvalidDate

definition trunc_real :: "real \<Rightarrow> int" where
  "trunc_real v = (if 0 \<le> v then \<lfloor>v\<rfloor> else \<lceil>v\<rceil>)"

fun newDate :: "number \<Rightarrow> date" where
  "newDate (Fin v) = (if \<bar>v\<bar> \<le> 8640000000000000 then ValidDate (trunc_real v) else InvalidDate)"
| "newDate _ = InvalidDate"

text \<open>\<open>d.valueOf()\<close>, which a relational operator applies to a \<open>Date\<close> operand.\<close>

fun valueOf :: "date \<Rightarrow> number" where
  "valueOf (ValidDate t) = Fin (of_int t)"
| "valueOf InvalidDate = NaN"

record FXTrade =
  idStr :: string
  notionalUSD :: number
  tradeDate :: date
  maturityDate :: date
  direction :: direction

record RiskScenario =
  currentFXRate :: number
  shockedFXRate :: number
  interestRateShock :: number
  volatility :: number

record RiskMetrics =
  totalExposureUSD :: number
  totalPnL :: number
  unhedgedPnL :: number
  hedgedPnL :: number
  optimalHedgeRatio :: number
  hedgeCost :: number
  valueAtRisk :: number

section \<open>The calculations\<close>

text \<open>\<open>calculateShockedFXRate(currentRate, interestRateShockBps, timeToMaturity)\<close>\<close>

definition calculateShockedFXRate :: "number \<Rightarrow> number \<Rightarrow> number \<Rightarrow> number" where
  "calculateShockedFXRate currentRate interestRateShockBps timeToMaturity =
     (let shockDecimal = jdiv interestRateShockBps (Fin 10000)
      in jmul currentRate (jadd (Fin 1) (jmul shockDecimal timeToMaturity)))"

text \<open>
  \<open>calculateUnhedgedPnL(trades, currentRate, shockedRate)\<close>: \<open>tradePnL\<close> is the callback
  of the \<open>reduce\<close>, which starts from \<open>0\<close> and runs left to right.
\<close>

definition tradePnL :: "number \<Rightarrow> number \<Rightarrow> FXTrade \<Rightarrow> number" where
  "tradePnL currentRate shockedRate trade =
     (let rateDelta = jsub shockedRate currentRate
      in if direction trade = long
         then jmul (notionalUSD trade) rateDelta
         else jmul (jneg (notionalUSD trade)) rateDelta)"

definition calculateUnhedgedPnL :: "FXTrade list \<Rightarrow> number \<Rightarrow> number \<Rightarrow> number" where
  "calculateUnhedgedPnL trades currentRate shockedRate =
     foldl (\<lambda>totalPnL trade. jadd totalPnL (tradePnL currentRate shockedRate trade))
       (Fin 0) trades"

text \<open>\<open>calculateHedgeCost(notionalUSD, forwardRate, spotRate, hedgeRatio)\<close>\<close>

definition calculateHedgeCost :: "number \<Rightarrow> number \<Rightarrow> number \<Rightarrow> number \<Rightarrow> number" where
  "calculateHedgeCost notional forwardRate spotRate hedgeRatio =
     (let forwardPoints = jsub forwardRate spotRate
      in jmul (jmul notional hedgeRatio) forwardPoints)"

text \<open>
  \<open>calculateOptimalHedgeRatio(totalExposure, expectedVolatility, hedgeCost, riskAversion)\<close>,
  with its two local constants as functions of their own. The parameter \<open>hedgeCost\<close> is
  written \<open>cost\<close> here, and the parameter \<open>volatility\<close> of \<open>calculateVaR\<close> below is
  written \<open>vol\<close>: the records have fields of these names.
\<close>

definition costPenalty :: "number \<Rightarrow> number \<Rightarrow> number" where
  "costPenalty cost totalExposure = jdiv (jabs cost) totalExposure"

definition volatilityBenefit :: "number \<Rightarrow> number \<Rightarrow> number" where
  "volatilityBenefit expectedVolatility riskAversion = jmul expectedVolatility riskAversion"

definition calculateOptimalHedgeRatio :: "number \<Rightarrow> number \<Rightarrow> number \<Rightarrow> number \<Rightarrow> number" where
  "calculateOptimalHedgeRatio totalExposure expectedVolatility cost riskAversion =
     (let cp = costPenalty cost totalExposure;
          vb = volatilityBenefit expectedVolatility riskAversion;
          optimalRatio = Math_min (Fin 1) (jdiv vb (jadd vb cp))
      in Math_max (Fin 0) optimalRatio)"

text \<open>\<open>calculateVaR(totalExposure, volatility, confidenceLevel, timeHorizon)\<close>\<close>

definition zScore :: "number \<Rightarrow> number" where
  "zScore confidenceLevel = (if jeq confidenceLevel (Fin 0.95) then Fin 1.645 else Fin 2.33)"

definition calculateVaR :: "number \<Rightarrow> number \<Rightarrow> number \<Rightarrow> number \<Rightarrow> number" where
  "calculateVaR totalExposure vol confidenceLevel timeHorizon =
     (let scaledVolatility = jmul vol (jsqrt (jdiv timeHorizon (Fin 252)))
      in jmul (jmul totalExposure scaledVolatility) (zScore confidenceLevel))"

text \<open>
  \<open>calculateRiskMetrics(trades, scenario)\<close>. The calls that leave a parameter out take
  its default: hedge ratio \<open>1\<close>, risk aversion \<open>0.5\<close>, confidence level \<open>0.95\<close> and a
  time horizon of \<open>1\<close> day.
\<close>

definition sumNotional :: "FXTrade list \<Rightarrow> number" where
  "sumNotional trades = foldl (\<lambda>sum trade. jadd sum (notionalUSD trade)) (Fin 0) trades"

definition calculateRiskMetrics :: "FXTrade list \<Rightarrow> RiskScenario \<Rightarrow> RiskMetrics" where
  "calculateRiskMetrics trades scenario =
     (let totalExposure = sumNotional trades;
          unhedged = calculateUnhedgedPnL trades (currentFXRate scenario) (shockedFXRate scenario);
          forwardRate = calculateShockedFXRate (currentFXRate scenario)
                          (interestRateShock scenario) (Fin 0.25);
          hCost = calculateHedgeCost totalExposure forwardRate (currentFXRate scenario) (Fin 1);
          ratio = calculateOptimalHedgeRatio totalExposure (volatility scenario) hCost (Fin 0.5);
          hedged = jsub (jmul unhedged (jsub (Fin 1) ratio)) (jmul hCost ratio);
          var = calculateVaR totalExposure (volatility scenario) (Fin 0.95) (Fin 1)
      in \<lparr>totalExposureUSD = totalExposure, totalPnL = unhedged, unhedgedPnL = unhedged,
          hedgedPnL = hedged, optimalHedgeRatio = ratio, hedgeCost = hCost,
          valueAtRisk = var\<rparr>)"

text \<open>
  \<open>generatePnLSensitivity(trades, baseRate, shockRange)\<close>. The number of steps is the
  local constant \<open>steps = 50\<close> of the source, not a parameter. The loop runs \<open>i\<close> from
  \<open>0\<close> to \<open>steps\<close> inclusive and pushes one point per round; \<open>sensitivityPoint\<close> is
  its body. The locals \<open>pnl\<close> and \<open>hedgedPnl\<close> are written \<open>p\<close> and \<open>hp\<close>.
\<close>

definition steps :: nat where
  "steps = 50"

record SensitivityPoint =
  fxRate :: number
  pnl :: number
  hedgedPnl :: number

definition sensitivityPoint :: "FXTrade list \<Rightarrow> number \<Rightarrow> number \<Rightarrow> nat \<Rightarrow> SensitivityPoint" where
  "sensitivityPoint trades baseRate shockRange i =
     (let rate = jadd (jsub baseRate shockRange)
                   (jdiv (jmul (jmul (Fin 2) shockRange) (Fin (real i))) (Fin (real steps)));
          p = calculateUnhedgedPnL trades baseRate rate;
          hp = jmul p (Fin 0.3)
      in \<lparr>fxRate = rate, pnl = jdiv p (Fin 1000000), hedgedPnl = jdiv hp (Fin 1000000)\<rparr>)"

function sensitivityLoop ::
  "FXTrade list \<Rightarrow> number \<Rightarrow> number \<Rightarrow> nat \<Rightarrow> SensitivityPoint list \<Rightarrow> SensitivityPoint list" where
  "sensitivityLoop trades baseRate shockRange i sensitivity =
     (if i \<le> steps
      then sensitivityLoop trades baseRate shockRange (Suc i)
             (sensitivity @ [sensitivityPoint trades baseRate shockRange i])
      else sensitivity)"
  by pat_completeness auto
termination
  by (relation "measure (\<lambda>(trades, baseRate, shockRange, i, sensitivity). Suc steps - i)") auto

definition generatePnLSensitivity :: "FXTrade list \<Rightarrow> number \<Rightarrow> number \<Rightarrow> SensitivityPoint list" where
  "generatePnLSensitivity trades baseRate shockRange = sensitivityLoop trades baseRate shockRange 0 []"

declare sensitivityLoop.simps [simp del]

section \<open>The trade generator\<close>

text \<open>
  \<open>generateFXTrades(count)\<close> reads two ambient sources: \<open>Math.random()\<close> and
  \<open>Date.now()\<close>. Both are injected here as the sequence of values that successive calls
  return (\<open>rng k\<close> is the result of call number \<open>k\<close>, a real; \<open>clk k\<close> is the clock
  reading of call number \<open>k\<close>, in whole milliseconds), and a \<open>world\<close> counts the calls
  made so far. Each round of the loop draws, in the order of the source: the notional,
  the direction, the days to maturity, then inside the object literal a clock reading
  and a draw for \<open>tradeDate\<close> and a second clock reading for \<open>maturityDate\<close>.
\<close>

record world =
  randomCalls :: nat
  clockCalls :: nat

definition Math_random :: "(nat \<Rightarrow> real) \<Rightarrow> world \<Rightarrow> number \<times> world" where
  "Math_random rng w = (Fin (rng (randomCalls w)), w\<lparr>randomCalls := Suc (randomCalls w)\<rparr>)"

definition Date_now :: "(nat \<Rightarrow> int) \<Rightarrow> world \<Rightarrow> number \<times> world" where
  "Date_now clk w = (Fin (of_int (clk (clockCalls w))), w\<lparr>clockCalls := Suc (clockCalls w)\<rparr>)"

text \<open>
  \<open>i.toString()\<close> of a loop counter is its decimal notation; \<open>padStart(3, '0')\<close> puts
  zeros in front of a string shorter than three characters and leaves a longer one as
  it is. The counter is a natural number here.
\<close>

definition digitChar :: "nat \<Rightarrow> char" where
  "digitChar d = char_of (48 + d)"

function natToString :: "nat \<Rightarrow> string" where
  "natToString n =
     (if n < 10 then [digitChar n] else natToString (n div 10) @ [digitChar (n mod 10)])"
  by pat_completeness auto
termination
  by (relation "measure (\<lambda>n. n)") auto

definition padStart :: "nat \<Rightarrow> char \<Rightarrow> string \<Rightarrow> string" where
  "padStart targetLength padChar s = replicate (targetLength - length s) padChar @ s"

definition tradeId :: "nat \<Rightarrow> string" where
  "tradeId i = ''FX-'' @ padStart 3 (CHR ''0'') (natToString i)"

definition makeTrade :: "(nat \<Rightarrow> real) \<Rightarrow> (nat \<Rightarrow> int) \<Rightarrow> nat \<Rightarrow> world \<Rightarrow> FXTrade \<times> world" where
  "makeTrade rng clk i w0 =
     (let (r1, w1) = Math_random rng w0;
          baseNotional = jadd (Fin 50000) (jmul r1 (Fin 2000000));
          (r2, w2) = Math_random rng w1;
          dir = (if jgt r2 (Fin 0.5) then long else short);
          (r3, w3) = Math_random rng w2;
          daysToMaturity = jadd (jfloor (jmul r3 (Fin 365))) (Fin 30);
          (now1, w4) = Date_now clk w3;
          (r4, w5) = Math_random rng w4;
          (now2, w6) = Date_now clk w5
      in (\<lparr>idStr = tradeId i,
           notionalUSD = baseNotional,
           tradeDate = newDate (jsub now1
             (jmul (jmul (jmul (jmul (jmul r4 (Fin 90)) (Fin 24)) (Fin 60)) (Fin 60)) (Fin 1000))),
           maturityDate = newDate (jadd now2
             (jmul (jmul (jmul (jmul daysToMaturity (Fin 24)) (Fin 60)) (Fin 60)) (Fin 1000))),
           direction = dir\<rparr>, w6))"

function generateLoop ::
  "(nat \<Rightarrow> real) \<Rightarrow> (nat \<Rightarrow> int) \<Rightarrow> nat \<Rightarrow> nat \<Rightarrow> world \<Rightarrow> FXTrade list \<Rightarrow> FXTrade list" where
  "generateLoop rng clk count i w trades =
     (if i < count
      then (let (trade, w') = makeTrade rng clk i w
            in generateLoop rng clk count (Suc i) w' (trades @ [trade]))
      else trades)"
  by pat_completeness auto
termination
  by (relation "measure (\<lambda>(rng, clk, count, i, w, trades). count - i)") auto

definition generateFXTrades :: "(nat \<Rightarrow> real) \<Rightarrow> (nat \<Rightarrow> int) \<Rightarrow> nat \<Rightarrow> FXTrade list" where
  "generateFXTrades rng clk count =
     generateLoop rng clk count 0 \<lparr>randomCalls = 0, clockCalls = 0\<rparr> []"

declare generateLoop.simps [simp del] natToString.simps [simp del]

section \<open>Predicates and sample inputs of the statements\<close>

text \<open>Membership of the closed interval from \<open>0\<close> to \<open>1\<close>, by the comparisons of the language.\<close>

definition in_unit_interval :: "number \<Rightarrow> bool" where
  "in_unit_interval x = (jle (Fin 0) x \<and> jle x (Fin 1))"

text \<open>\<open>d1 > d2\<close> on two dates.\<close>

definition dateAfter :: "date \<Rightarrow> date \<Rightarrow> bool" where
  "dateAfter d1 d2 = jgt (valueOf d1) (valueOf d2)"

definition validTrade :: "FXTrade \<Rightarrow> bool" where
  "validTrade t = (jle (Fin 50000) (notionalUSD t) \<and> jlt (notionalUSD t) (Fin 2050000) \<and>
                   dateAfter (maturityDate t) (tradeDate t))"

text \<open>
  The ranges of the injected sources: every draw lies in the half-open interval from
  \<open>0\<close> to \<open>1\<close>; every clock reading is a time value from 1970 on that leaves room for
  the longest maturity below the largest valid date, and the clock does not run
  backwards.
\<close>

definition randomOk :: "(nat \<Rightarrow> real) \<Rightarrow> bool" where
  "randomOk rng = (\<forall>k. 0 \<le> rng k \<and> rng k < 1)"

definition clockOk :: "(nat \<Rightarrow> int) \<Rightarrow> bool" where
  "clockOk clk = (\<forall>k. 0 \<le> clk k \<and> clk k \<le> 8000000000000000 \<and> clk k \<le> clk (Suc k))"

text \<open>Reading a decimal string back, to tell identifiers apart.\<close>

definition digitVal :: "char \<Rightarrow> nat" where
  "digitVal c = of_char c - 48"

definition stringVal :: "string \<Rightarrow> nat" where
  "stringVal s = foldl (\<lambda>a c. 10 * a + digitVal c) 0 s"

text \<open>
  The scenario the dashboard starts with: spot \<open>4.65\<close>, a shock of \<open>200\<close> basis points
  over \<open>30/365\<close> of a year, volatility \<open>0.15\<close>. And a long trade of a given notional.
\<close>

definition defaultScenario :: RiskScenario where
  "defaultScenario =
     \<lparr>currentFXRate = Fin 4.65,
      shockedFXRate = calculateShockedFXRate (Fin 4.65) (Fin 200) (jdiv (Fin 30) (Fin 365)),
      interestRateShock = Fin 200,
      volatility = Fin 0.15\<rparr>"

definition longTrade :: "real \<Rightarrow> FXTrade" where
  "longTrade n =
     \<lparr>idStr = ''FX-000'', notionalUSD = Fin n, tradeDate = ValidDate 1700000000000,
      maturityDate = ValidDate 1707776000000, direction = long\<rparr>"


section \<open>Binary64 arithmetic\<close>

text \<open>
  A double is \<open>n * 2^(e - 52)\<close> for whole \<open>n\<close> of magnitude below \<open>2^53\<close> and an exponent
  \<open>e\<close> from \<open>-1022\<close> to \<open>1023\<close>. \<open>fl x\<close> is the double nearest to the real \<open>x\<close>: the
  binade of \<open>x\<close> fixes the spacing \<open>2^(e - 52)\<close> (the smallest binade is that of the
  subnormal numbers), the quotient of \<open>x\<close> by the spacing is rounded to the nearest whole
  number, to the even one of two equally near, and a result of magnitude \<open>2^1024\<close> or
  more is an infinity.
\<close>

definition pow2 :: "int \<Rightarrow> real" where
  "pow2 e = (if 0 \<le> e then 2 ^ nat e else 1 / 2 ^ nat (- e))"

definition binade :: "real \<Rightarrow> int" where
  "binade x = max \<lfloor>log 2 \<bar>x\<bar>\<rfloor> (- 1022)"

definition rne :: "real \<Rightarrow> int" where
  "rne q = (let f = \<lfloor>q\<rfloor>; r = q - of_int f
            in if r < 1 / 2 then f else if 1 / 2 < r then f + 1
               else if even f then f else f + 1)"

definition fl :: "real \<Rightarrow> number" where
  "fl x = (if x = 0 then Fin 0
           else let u = pow2 (binade x - 52); y = of_int (rne (x / u)) * u
                in if 2 ^ 1024 \<le> \<bar>y\<bar> then (if 0 < x then PInf else NInf) else Fin y)"


text \<open>
  An arithmetic operation of the language is the exact operation followed by the
  rounding of a finite result; a decimal literal of the source is the double nearest to
  it. Negation, \<open>Math.abs\<close> and the comparisons are exact on doubles.
\<close>

definition round64 :: "number \<Rightarrow> number" where
  "round64 r = (case r of Fin x \<Rightarrow> fl x | _ \<Rightarrow> r)"

definition lit :: "real \<Rightarrow> number" where
  "lit x = fl x"

definition add64 :: "number \<Rightarrow> number \<Rightarrow> number" where
  "add64 a b = round64 (jadd a b)"

definition sub64 :: "number \<Rightarrow> number \<Rightarrow> number" where
  "sub64 a b = round64 (jsub a b)"

definition mul64 :: "number \<Rightarrow> number \<Rightarrow> number" where
  "mul64 a b = round64 (jmul a b)"

definition div64 :: "number \<Rightarrow> number \<Rightarrow> number" where
  "div64 a b = round64 (jdiv a b)"

definition sqrt64 :: "number \<Rightarrow> number" where
  "sqrt64 a = round64 (jsqrt a)"

text \<open>
  The calculations again, operation by operation as above, on doubles:
  \<open>calculateUnhedgedPnL\<close>, \<open>generatePnLSensitivity\<close> and \<open>calculateVaR\<close>.
\<close>

definition tradePnL64 :: "number \<Rightarrow> number \<Rightarrow> FXTrade \<Rightarrow> number" where
  "tradePnL64 currentRate shockedRate trade =
     (let rateDelta = sub64 shockedRate currentRate
      in if direction trade = long
         then mul64 (notionalUSD trade) rateDelta
         else mul64 (jneg (notionalUSD trade)) rateDelta)"

definition calculateUnhedgedPnL64 :: "FXTrade list \<Rightarrow> number \<Rightarrow> number \<Rightarrow> number" where
  "calculateUnhedgedPnL64 trades currentRate shockedRate =
     foldl (\<lambda>totalPnL trade. add64 totalPnL (tradePnL64 currentRate shockedRate trade))
       (Fin 0) trades"





definition zScore64 :: "number \<Rightarrow> number" where
  "zScore64 confidenceLevel = (if jeq confidenceLevel (lit 0.95) then lit 1.645 else lit 2.33)"

definition calculateVaR64 :: "number \<Rightarrow> number \<Rightarrow> number \<Rightarrow> number \<Rightarrow> number" where
  "calculateVaR64 totalExposure vol confidenceLevel timeHorizon =
     (let scaledVolatility = mul64 vol (sqrt64 (div64 timeHorizon (Fin 252)))
      in mul64 (mul64 totalExposure scaledVolatility) (zScore64 confidenceLevel))"

section \<open>Properties\<close>

lemma jadd_zero_left: "jadd (Fin 0) x = x"
  by (cases x) simp_all

lemma jadd_assoc: "jadd (jadd a b) c = jadd a (jadd b c)"
  by (cases a; cases b; cases c) simp_all

lemma foldl_jadd_start:
  "foldl (\<lambda>s t. jadd s (f t)) a ts = jadd a (foldl (\<lambda>s t. jadd s (f t)) (Fin 0) ts)"
proof (induction ts arbitrary: a)
  case Nil
  show ?case by (cases a) simp_all
next
  case (Cons t ts)
  have "foldl (\<lambda>s t. jadd s (f t)) a (t # ts) = jadd (jadd a (f t)) (foldl (\<lambda>s t. jadd s (f t)) (Fin 0) ts)"
    using Cons.IH [of "jadd a (f t)"] by simp
  also have "\<dots> = jadd a (jadd (f t) (foldl (\<lambda>s t. jadd s (f t)) (Fin 0) ts))"
    by (rule jadd_assoc)
  also have "jadd (f t) (foldl (\<lambda>s t. jadd s (f t)) (Fin 0) ts) = foldl (\<lambda>s t. jadd s (f t)) (Fin 0) (t # ts)"
    using Cons.IH [of "f t"] by (simp add: jadd_zero_left)
  finally show ?case .
qed

text \<open>
  C10. The P&L of the empty trade list is exactly \<open>0\<close>, whatever the base rate and the
  comparison rate are.
\<close>

theorem pnl_empty: "calculateUnhedgedPnL [] currentRate shockedRate = Fin 0"
  by (simp add: calculateUnhedgedPnL_def)

text \<open>
  In exact arithmetic the P&L of \<open>trades1\<close> followed by \<open>trades2\<close> is the sum of the P&L
  of each. On doubles this holds for a second list of one trade only; see the section on
  binary64 arithmetic.
\<close>

lemma pnl_additive_exact:
  "calculateUnhedgedPnL (trades1 @ trades2) currentRate shockedRate =
     jadd (calculateUnhedgedPnL trades1 currentRate shockedRate)
          (calculateUnhedgedPnL trades2 currentRate shockedRate)"
  unfolding calculateUnhedgedPnL_def foldl_append
  by (rule foldl_jadd_start)

text \<open>
  C7. The rate shock model is a no-op at zero shock, for every spot rate and every real
  time fraction, and at zero time fraction, for every spot rate and every real shock.
\<close>

theorem shocked_rate_noop:
  "calculateShockedFXRate spot (Fin 0) (Fin t) = spot \<and>
   calculateShockedFXRate spot (Fin bps) (Fin 0) = spot"
  by (cases spot) (simp_all add: calculateShockedFXRate_def signed_inf_def)

subsection \<open>The risk metrics\<close>

text \<open>
  C4. For every trade list and scenario, the \<open>totalPnL\<close> of the metrics equals their
  \<open>unhedgedPnL\<close>; \<open>hedgedPnL\<close> is \<open>unhedgedPnL * (1 - optimalHedgeRatio) -
  hedgeCost * optimalHedgeRatio\<close>; and \<open>hedgeCost\<close> is the hedge cost of the total exposure
  at hedge ratio \<open>1\<close> against the forward rate that the rate shock model gives at the
  fixed time fraction \<open>0.25\<close>.
\<close>

theorem risk_metrics_fields:
  "totalPnL (calculateRiskMetrics trades scenario) = unhedgedPnL (calculateRiskMetrics trades scenario) \<and>
   hedgedPnL (calculateRiskMetrics trades scenario) =
     jsub (jmul (unhedgedPnL (calculateRiskMetrics trades scenario))
                (jsub (Fin 1) (optimalHedgeRatio (calculateRiskMetrics trades scenario))))
          (jmul (hedgeCost (calculateRiskMetrics trades scenario))
                (optimalHedgeRatio (calculateRiskMetrics trades scenario))) \<and>
   hedgeCost (calculateRiskMetrics trades scenario) =
     calculateHedgeCost (totalExposureUSD (calculateRiskMetrics trades scenario))
       (calculateShockedFXRate (currentFXRate scenario) (interestRateShock scenario) (Fin 0.25))
       (currentFXRate scenario) (Fin 1) \<and>
   unhedgedPnL (calculateRiskMetrics trades scenario) =
     calculateUnhedgedPnL trades (currentFXRate scenario) (shockedFXRate scenario) \<and>
   optimalHedgeRatio (calculateRiskMetrics trades scenario) =
     calculateOptimalHedgeRatio (totalExposureUSD (calculateRiskMetrics trades scenario))
       (volatility scenario) (hedgeCost (calculateRiskMetrics trades scenario)) (Fin 0.5)"
  by (simp add: calculateRiskMetrics_def Let_def)

subsection \<open>The optimal hedge ratio\<close>


text \<open>The clamp works on every value but \<open>NaN\<close>, which \<open>Math.min\<close> and \<open>Math.max\<close> pass on.\<close>

lemma optimal_ratio_nan_or_clamped:
  "calculateOptimalHedgeRatio e v h r = NaN \<or> in_unit_interval (calculateOptimalHedgeRatio e v h r)"
  unfolding calculateOptimalHedgeRatio_def Let_def in_unit_interval_def jle_def
  by (cases "jdiv (volatilityBenefit v r) (jadd (volatilityBenefit v r) (costPenalty h e))") auto

text \<open>
  C2. The result of the optimizer is not in the interval from \<open>0\<close> to \<open>1\<close> for all finite
  inputs: with a positive exposure, zero volatility and zero hedge cost the quotient is
  \<open>0/0\<close>, and with zero exposure and zero hedge cost the cost penalty is \<open>0/0\<close>. Both
  times the result is \<open>NaN\<close>, which neither bound of the clamp catches.
\<close>

theorem optimal_ratio_nan:
  "calculateOptimalHedgeRatio (Fin 1000000) (Fin 0) (Fin 0) (Fin 0.5) = NaN \<and>
   \<not> in_unit_interval (calculateOptimalHedgeRatio (Fin 1000000) (Fin 0) (Fin 0) (Fin 0.5)) \<and>
   calculateOptimalHedgeRatio (Fin 0) (Fin 0.15) (Fin 0) (Fin 0.5) = NaN \<and>
   \<not> in_unit_interval (calculateOptimalHedgeRatio (Fin 0) (Fin 0.15) (Fin 0) (Fin 0.5))"
  by (simp add: calculateOptimalHedgeRatio_def costPenalty_def volatilityBenefit_def
      signed_inf_def in_unit_interval_def jle_def)

text \<open>
  C1. With no trades the total exposure is \<open>0\<close> and so is the hedge cost, and the cost
  penalty is the quotient of the two: \<open>NaN\<close>, not \<open>0\<close>. The hedge ratio is \<open>NaN\<close> then,
  outside the interval from \<open>0\<close> to \<open>1\<close>, and the hedged P&L is \<open>NaN\<close> with it. Here
  at the default scenario.
\<close>

theorem zero_exposure_ratio_nan:
  "totalExposureUSD (calculateRiskMetrics [] defaultScenario) = Fin 0 \<and>
   hedgeCost (calculateRiskMetrics [] defaultScenario) = Fin 0 \<and>
   costPenalty (hedgeCost (calculateRiskMetrics [] defaultScenario))
     (totalExposureUSD (calculateRiskMetrics [] defaultScenario)) = NaN \<and>
   costPenalty (hedgeCost (calculateRiskMetrics [] defaultScenario))
     (totalExposureUSD (calculateRiskMetrics [] defaultScenario)) \<noteq> Fin 0 \<and>
   optimalHedgeRatio (calculateRiskMetrics [] defaultScenario) = NaN \<and>
   \<not> in_unit_interval (optimalHedgeRatio (calculateRiskMetrics [] defaultScenario)) \<and>
   hedgedPnL (calculateRiskMetrics [] defaultScenario) = NaN"
  by (simp add: calculateRiskMetrics_def defaultScenario_def sumNotional_def
      calculateUnhedgedPnL_def calculateShockedFXRate_def calculateHedgeCost_def
      calculateOptimalHedgeRatio_def costPenalty_def volatilityBenefit_def signed_inf_def
      jsub_def in_unit_interval_def jle_def Let_def)

subsection \<open>Value at risk\<close>

text \<open>
  In exact arithmetic, with the decimal constants as they are written: the z-score is
  \<open>1.645\<close> at the confidence level \<open>0.95\<close> and \<open>2.33\<close> at every other one, and for
  positive exposure, volatility and horizon the value at risk at \<open>0.95\<close> divided by the
  one at \<open>0.99\<close> is \<open>1.645 / 2.33\<close>. On doubles the quotient is off; see the section on
  binary64 arithmetic.
\<close>

lemma var_ratio_exact:
  "zScore (Fin 0.95) = Fin 1.645 \<and>
   (cl \<noteq> Fin 0.95 \<longrightarrow> zScore cl = Fin 2.33) \<and>
   (0 < X \<and> 0 < V \<and> 0 < T \<longrightarrow>
      jdiv (calculateVaR (Fin X) (Fin V) (Fin 0.95) (Fin T))
           (calculateVaR (Fin X) (Fin V) (Fin 0.99) (Fin T)) = Fin (1.645 / 2.33))"
proof (intro conjI impI)
  show "zScore (Fin 0.95) = Fin 1.645"
    by (simp add: zScore_def)
  show "zScore cl = Fin 2.33" if "cl \<noteq> Fin 0.95"
    using that by (cases cl) (simp_all add: zScore_def)
  show "jdiv (calculateVaR (Fin X) (Fin V) (Fin 0.95) (Fin T))
             (calculateVaR (Fin X) (Fin V) (Fin 0.99) (Fin T)) = Fin (1.645 / 2.33)"
    if "0 < X \<and> 0 < V \<and> 0 < T"
  proof -
    have "0 < X * (V * sqrt (T / 252))"
      using that by simp
    then show ?thesis
      using that by (simp add: calculateVaR_def zScore_def)
  qed
qed


subsection \<open>The sensitivity curve\<close>

text \<open>The loop pushes the points of \<open>i = 0, ..., steps\<close> in this order.\<close>

lemma sensitivityLoop_map:
  "sensitivityLoop trades baseRate shockRange i acc =
     acc @ map (sensitivityPoint trades baseRate shockRange) [i..<Suc steps]"
proof (induction trades baseRate shockRange i acc rule: sensitivityLoop.induct)
  case (1 trades baseRate shockRange i acc)
  show ?case
  proof (cases "i \<le> steps")
    case True
    then have "[i..<Suc steps] = i # [Suc i..<Suc steps]"
      by (simp add: upt_conv_Cons)
    with True "1.IH" show ?thesis
      by (subst sensitivityLoop.simps) simp
  next
    case False
    then show ?thesis
      by (subst sensitivityLoop.simps) simp
  qed
qed

lemma generatePnLSensitivity_map:
  "generatePnLSensitivity trades baseRate shockRange =
     map (sensitivityPoint trades baseRate shockRange) [0..<Suc steps]"
  by (simp add: generatePnLSensitivity_def sensitivityLoop_map)

lemma generatePnLSensitivity_nth:
  "i \<le> steps \<Longrightarrow>
   generatePnLSensitivity trades baseRate shockRange ! i = sensitivityPoint trades baseRate shockRange i"
  unfolding generatePnLSensitivity_map
  using nth_map_upt [of i "Suc steps" 0 "sensitivityPoint trades baseRate shockRange"] by simp

lemma fxRate_point:
  "fxRate (sensitivityPoint trades (Fin b) (Fin s) i) = Fin (b - s + 2 * s * real i / 50)"
  by (simp add: sensitivityPoint_def steps_def jsub_def Let_def)

lemma tradePnL_flat:
  "is_finite (notionalUSD t) \<Longrightarrow> tradePnL (Fin b) (Fin b) t = Fin 0"
  by (cases "notionalUSD t") (simp_all add: tradePnL_def jsub_def Let_def)

lemma pnl_flat:
  "\<forall>t\<in>set trades. is_finite (notionalUSD t) \<Longrightarrow> calculateUnhedgedPnL trades (Fin b) (Fin b) = Fin 0"
  unfolding calculateUnhedgedPnL_def
  by (induction trades) (simp_all add: tradePnL_flat)

text \<open>
  In exact arithmetic, for every trade list of finite notionals, every base rate and
  every positive shock range: the curve has \<open>51\<close> points, its rates increase strictly
  and lie symmetrically around the base rate, and the point of \<open>i = 25\<close> has the base
  rate as its rate and a P&L of \<open>0\<close>. On doubles only the number of points and the
  order remain; see the section on binary64 arithmetic.
\<close>

lemma sensitivity_curve_exact:
  assumes "0 < shockRange" and "\<forall>t\<in>set trades. is_finite (notionalUSD t)"
  shows "let out = generatePnLSensitivity trades (Fin baseRate) (Fin shockRange) in
           length out = steps + 1 \<and> length out = 51 \<and>
           (\<forall>i j. i < j \<and> j < length out \<longrightarrow> jlt (fxRate (out ! i)) (fxRate (out ! j))) \<and>
           (\<forall>i. i \<le> steps \<longrightarrow>
              jsub (fxRate (out ! (steps - i))) (Fin baseRate) = jsub (Fin baseRate) (fxRate (out ! i))) \<and>
           fxRate (out ! (steps div 2)) = Fin baseRate \<and> pnl (out ! (steps div 2)) = Fin 0"
proof -
  let ?out = "generatePnLSensitivity trades (Fin baseRate) (Fin shockRange)"
  have len: "length ?out = 51"
    by (simp add: generatePnLSensitivity_map steps_def)
  have rate: "fxRate (?out ! i) = Fin (baseRate - shockRange + 2 * shockRange * real i / 50)"
    if "i \<le> steps" for i
    using that by (simp add: generatePnLSensitivity_nth fxRate_point)
  have incr: "jlt (fxRate (?out ! i)) (fxRate (?out ! j))" if "i < j \<and> j < length ?out" for i j
  proof -
    from that len have b: "i \<le> steps" "j \<le> steps" by (simp_all add: steps_def)
    from that have "real i < real j" by simp
    with assms(1) have "2 * shockRange * real i / 50 < 2 * shockRange * real j / 50"
      by (simp add: divide_strict_right_mono)
    with b show ?thesis by (simp add: rate)
  qed
  have sym: "jsub (fxRate (?out ! (steps - i))) (Fin baseRate) = jsub (Fin baseRate) (fxRate (?out ! i))"
    if "i \<le> steps" for i
  proof -
    from that have "real (steps - i) = 50 - real i" by (simp add: steps_def of_nat_diff)
    with that show ?thesis by (simp add: rate jsub_def field_simps)
  qed
  have mid: "fxRate (?out ! (steps div 2)) = Fin baseRate"
    using rate [of "steps div 2"] by (simp add: steps_def)
  have "pnl (?out ! (steps div 2)) = jdiv (calculateUnhedgedPnL trades (Fin baseRate) (fxRate (?out ! (steps div 2)))) (Fin 1000000)"
    by (simp add: generatePnLSensitivity_nth sensitivityPoint_def Let_def)
  then have zero: "pnl (?out ! (steps div 2)) = Fin 0"
    using assms(2) by (simp add: mid pnl_flat)
  from len incr sym mid zero show ?thesis
    by (simp add: Let_def steps_def)
qed

subsection \<open>The trade generator\<close>

text \<open>
  Identifiers: reading the digits of \<open>tradeId i\<close> back gives \<open>i\<close>, with or without
  padding, so two counters never share an identifier.
\<close>

lemma digitVal_digitChar: "d < 10 \<Longrightarrow> digitVal (digitChar d) = d"
  by (simp add: digitVal_def digitChar_def)

lemma stringVal_snoc: "stringVal (s @ [c]) = 10 * stringVal s + digitVal c"
  by (simp add: stringVal_def)

lemma stringVal_natToString: "stringVal (natToString n) = n"
proof (induction n rule: natToString.induct)
  case (1 n)
  show ?case
  proof (cases "n < 10")
    case True
    then show ?thesis
      by (subst natToString.simps) (simp add: stringVal_def digitVal_digitChar)
  next
    case False
    with "1.IH" show ?thesis
      by (subst natToString.simps) (simp add: stringVal_snoc digitVal_digitChar)
  qed
qed

lemma foldl_zeros: "foldl (\<lambda>a c. 10 * a + digitVal c) 0 (replicate k (CHR ''0'')) = 0"
  by (induction k) (simp_all add: digitVal_def)

lemma stringVal_padStart: "stringVal (padStart n (CHR ''0'') s) = stringVal s"
  by (simp add: padStart_def stringVal_def foldl_zeros)

lemma tradeId_index: "stringVal (drop 3 (tradeId i)) = i"
  by (simp add: tradeId_def stringVal_padStart stringVal_natToString)

lemma tradeId_inj: "inj tradeId"
  by (rule inj_on_inverseI [where g = "\<lambda>s. stringVal (drop 3 s)"]) (rule tradeId_index)

lemma makeTrade_id: "idStr (fst (makeTrade rng clk i w)) = tradeId i"
  by (simp add: makeTrade_def Math_random_def Date_now_def Let_def)

lemma generateLoop_ids:
  "map idStr (generateLoop rng clk count i w trades) = map idStr trades @ map tradeId [i..<count]"
proof (induction rng clk count i w trades rule: generateLoop.induct)
  case (1 rng clk count i w trades)
  show ?case
  proof (cases "i < count")
    case True
    obtain trade w' where mk: "makeTrade rng clk i w = (trade, w')"
      by (cases "makeTrade rng clk i w")
    from mk have "idStr trade = tradeId i"
      using makeTrade_id [of rng clk i w] by simp
    moreover from True have "[i..<count] = i # [Suc i..<count]"
      by (simp add: upt_conv_Cons)
    ultimately show ?thesis
      using True mk "1.IH" [OF True mk [symmetric] refl]
      by (subst generateLoop.simps) simp
  next
    case False
    then show ?thesis
      by (subst generateLoop.simps) simp
  qed
qed

lemma generateLoop_set:
  "set (generateLoop rng clk count i w trades) \<subseteq>
     set trades \<union> {t. \<exists>j v. t = fst (makeTrade rng clk j v)}"
proof (induction rng clk count i w trades rule: generateLoop.induct)
  case (1 rng clk count i w trades)
  show ?case
  proof (cases "i < count")
    case True
    obtain trade w' where mk: "makeTrade rng clk i w = (trade, w')"
      by (cases "makeTrade rng clk i w")
    then have "trade = fst (makeTrade rng clk i w)" by simp
    then have new: "trade \<in> {t. \<exists>j v. t = fst (makeTrade rng clk j v)}" by blast
    have step: "generateLoop rng clk count i w trades =
                generateLoop rng clk count (Suc i) w' (trades @ [trade])"
      using True mk by (subst generateLoop.simps) simp
    have "set (generateLoop rng clk count (Suc i) w' (trades @ [trade])) \<subseteq>
            set (trades @ [trade]) \<union> {t. \<exists>j v. t = fst (makeTrade rng clk j v)}"
      by (rule "1.IH" [OF True mk [symmetric] refl])
    with new show ?thesis unfolding step by auto
  next
    case False
    then show ?thesis
      by (subst generateLoop.simps) simp
  qed
qed

lemma generateLoop_all:
  assumes "\<And>j v. P (fst (makeTrade rng clk j v))" and "\<forall>t\<in>set trades. P t"
  shows "\<forall>t\<in>set (generateLoop rng clk count i w trades). P t"
  using assms generateLoop_set [of rng clk count i w trades] by blast

lemma generateLoop_length:
  "length (generateLoop rng clk count i w trades) = length trades + (count - i)"
  using generateLoop_ids [of rng clk count i w trades, THEN arg_cong, of length]
  by simp

lemma trunc_real_of_int: "trunc_real (of_int z) = z"
  by (simp add: trunc_real_def)

lemma trunc_real_le: "v \<le> of_int z \<Longrightarrow> trunc_real v \<le> z"
  by (simp add: trunc_real_def floor_le_iff ceiling_le_iff)

lemma makeTrade_notional:
  "notionalUSD (fst (makeTrade rng clk i w)) = Fin (50000 + rng (randomCalls w) * 2000000)"
  by (simp add: makeTrade_def Math_random_def Date_now_def Let_def)

lemma makeTrade_tradeDate:
  "tradeDate (fst (makeTrade rng clk i w)) =
     newDate (Fin (of_int (clk (clockCalls w)) - 7776000000 * rng (Suc (Suc (Suc (randomCalls w))))))"
  by (simp add: makeTrade_def Math_random_def Date_now_def Let_def jsub_def del: newDate.simps)

lemma makeTrade_maturityDate:
  "maturityDate (fst (makeTrade rng clk i w)) =
     newDate (Fin (of_int (clk (Suc (clockCalls w))) +
        (86400000 * of_int \<lfloor>rng (Suc (Suc (randomCalls w))) * 365\<rfloor> + 2592000000)))"
  by (simp add: makeTrade_def Math_random_def Date_now_def Let_def del: newDate.simps)

lemma makeTrade_valid:
  assumes "randomOk rng" and "clockOk clk"
  shows "validTrade (fst (makeTrade rng clk i w))"
proof -
  define r1 where "r1 = rng (randomCalls w)"
  define r3 where "r3 = rng (Suc (Suc (randomCalls w)))"
  define r4 where "r4 = rng (Suc (Suc (Suc (randomCalls w))))"
  define c1 where "c1 = clk (clockCalls w)"
  define c2 where "c2 = clk (Suc (clockCalls w))"
  define f where "f = \<lfloor>r3 * 365\<rfloor>"
  define v1 where "v1 = real_of_int c1 - 7776000000 * r4"
  define m where "m = c2 + (86400000 * f + 2592000000)"
  have r: "0 \<le> r1" "r1 < 1" "0 \<le> r3" "r3 < 1" "0 \<le> r4" "r4 < 1"
    using assms(1) by (simp_all add: randomOk_def r1_def r3_def r4_def)
  have c: "0 \<le> c1" "c1 \<le> c2" "c2 \<le> 8000000000000000"
    using assms(2) by (simp_all add: clockOk_def c1_def c2_def)
  have n: "notionalUSD (fst (makeTrade rng clk i w)) = Fin (50000 + r1 * 2000000)"
    by (simp only: makeTrade_notional r1_def)
  have td: "tradeDate (fst (makeTrade rng clk i w)) = newDate (Fin v1)"
    by (simp only: makeTrade_tradeDate v1_def r4_def c1_def)
  have "real_of_int m = of_int c2 + (86400000 * of_int f + 2592000000)"
    by (simp add: m_def)
  then have md: "maturityDate (fst (makeTrade rng clk i w)) = newDate (Fin (of_int m))"
    by (simp only: makeTrade_maturityDate f_def r3_def c2_def)
  have fb: "0 \<le> f" "f \<le> 364"
  proof -
    from r have "0 \<le> r3 * 365" "r3 * 365 < 365" by simp_all
    then have "0 \<le> f" "f < 365" by (simp_all add: f_def floor_less_iff)
    then show "0 \<le> f" "f \<le> 364" by simp_all
  qed
  have c1r: "0 \<le> real_of_int c1"
    using c by simp
  have v1b: "- 7776000000 \<le> v1" "v1 \<le> of_int c1"
    using r c1r unfolding v1_def by linarith+
  have "of_int c1 \<le> (8000000000000000::real)"
    using c by linarith
  with v1b have "\<bar>v1\<bar> \<le> 8640000000000000"
    by linarith
  then have td': "tradeDate (fst (makeTrade rng clk i w)) = ValidDate (trunc_real v1)"
    by (simp add: td)
  have mb: "c2 < m" "0 \<le> m" "m \<le> 8640000000000000"
    using fb c by (simp_all add: m_def)
  then have "\<bar>real_of_int m\<bar> \<le> 8640000000000000"
    by linarith
  then have md': "maturityDate (fst (makeTrade rng clk i w)) = ValidDate m"
    by (simp add: md trunc_real_of_int)
  have "trunc_real v1 \<le> c1"
    using v1b(2) by (rule trunc_real_le)
  with c mb have "trunc_real v1 < m" by linarith
  then have after: "dateAfter (maturityDate (fst (makeTrade rng clk i w)))
                      (tradeDate (fst (makeTrade rng clk i w)))"
    by (simp add: td' md' dateAfter_def jgt_def)
  have "(50000::real) \<le> 50000 + r1 * 2000000" "50000 + r1 * 2000000 < (2050000::real)"
    using r by simp_all
  then have "jle (Fin 50000) (Fin (50000 + r1 * 2000000))"
    "jlt (Fin (50000 + r1 * 2000000)) (Fin 2050000)"
    by (auto simp add: jle_def)
  with after show ?thesis by (simp only: validTrade_def n simp_thms)
qed

text \<open>
  C8. For every count \<open>N\<close>, every random source within its range and every clock within
  its range, the generator returns exactly \<open>N\<close> trades, no two of them with the same
  identifier, each with a notional of at least \<open>50000\<close> and below \<open>2050000\<close> and a
  maturity date after its trade date.
\<close>

theorem generated_trades_valid:
  assumes "randomOk rng" and "clockOk clk"
  shows "length (generateFXTrades rng clk N) = N \<and>
         distinct (map idStr (generateFXTrades rng clk N)) \<and>
         (\<forall>t\<in>set (generateFXTrades rng clk N). validTrade t)"
proof -
  have "length (generateFXTrades rng clk N) = N"
    by (simp add: generateFXTrades_def generateLoop_length)
  moreover have "map idStr (generateFXTrades rng clk N) = map tradeId [0..<N]"
    by (simp add: generateFXTrades_def generateLoop_ids)
  then have "distinct (map idStr (generateFXTrades rng clk N))"
    using tradeId_inj by (simp add: distinct_map inj_on_def)
  moreover have "\<forall>t\<in>set (generateFXTrades rng clk N). validTrade t"
    unfolding generateFXTrades_def
    by (rule generateLoop_all) (simp_all add: makeTrade_valid assms)
  ultimately show ?thesis by blast
qed

text \<open>The theorem at three trades, every draw \<open>1/2\<close> and a clock that stands still.\<close>

theorem generated_trades_valid_witness:
  "randomOk (\<lambda>k. 1 / 2) \<and> clockOk (\<lambda>k. 1700000000000) \<and>
   length (generateFXTrades (\<lambda>k. 1 / 2) (\<lambda>k. 1700000000000) 3) = 3 \<and>
   distinct (map idStr (generateFXTrades (\<lambda>k. 1 / 2) (\<lambda>k. 1700000000000) 3)) \<and>
   validTrade (generateFXTrades (\<lambda>k. 1 / 2) (\<lambda>k. 1700000000000) 3 ! 0) \<and>
   validTrade (generateFXTrades (\<lambda>k. 1 / 2) (\<lambda>k. 1700000000000) 3 ! 1) \<and>
   validTrade (generateFXTrades (\<lambda>k. 1 / 2) (\<lambda>k. 1700000000000) 3 ! 2)"
proof -
  let ?ts = "generateFXTrades (\<lambda>k. 1 / 2) (\<lambda>k. 1700000000000) 3"
  have h1: "randomOk (\<lambda>k. 1 / 2)"
    by (simp add: randomOk_def)
  have h2: "clockOk (\<lambda>k. 1700000000000)"
    by (simp add: clockOk_def)
  note g = generated_trades_valid [OF h1 h2, of 3]
  from g have len: "length ?ts = 3" and dist: "distinct (map idStr ?ts)"
    and all: "\<forall>t\<in>set ?ts. validTrade t"
    by blast+
  from len have "?ts ! 0 \<in> set ?ts" "?ts ! 1 \<in> set ?ts" "?ts ! 2 \<in> set ?ts"
    by simp_all
  with all have "validTrade (?ts ! 0)" "validTrade (?ts ! 1)" "validTrade (?ts ! 2)"
    by blast+
  with h1 h2 len dist show ?thesis
    by blast
qed

section \<open>Properties on doubles\<close>

subsection \<open>Rounding\<close>

text \<open>
  How a rounding is evaluated: the binade by its two bounds, the whole number by its
  distance from the quotient (or by its parity at a tie).
\<close>

lemma pow2_powr: "pow2 e = 2 powr (of_int e)"
  by (simp add: pow2_def powr_real_of_int inverse_eq_divide)

lemma pow2_pos: "0 < pow2 e"
  by (simp add: pow2_powr)

lemma pow2_add: "pow2 (a + b) = pow2 a * pow2 b"
  by (simp add: pow2_powr powr_add)

lemma pow2_mono: "a \<le> b \<Longrightarrow> pow2 a \<le> pow2 b"
  by (simp add: pow2_powr)

lemma pow2_strict_mono: "a < b \<Longrightarrow> pow2 a < pow2 b"
  by (simp add: pow2_powr)

lemma binade_eqI:
  assumes "pow2 e \<le> \<bar>x\<bar>" and "\<bar>x\<bar> < pow2 (e + 1)" and "- 1022 \<le> e"
  shows "binade x = e"
proof -
  have pos: "0 < \<bar>x\<bar>" using assms(1) pow2_pos [of e] by linarith
  have "\<lfloor>log 2 \<bar>x\<bar>\<rfloor> = e"
    using assms(1,2) pos by (simp add: floor_log_eq_powr_iff pow2_powr)
  with assms(3) show ?thesis by (simp add: binade_def)
qed

lemma rne_eqI: "\<bar>q - of_int n\<bar> < 1 / 2 \<Longrightarrow> rne q = n"
proof -
  assume a: "\<bar>q - of_int n\<bar> < 1 / 2"
  show ?thesis
  proof (cases "of_int n \<le> q")
    case True
    with a have "\<lfloor>q\<rfloor> = n" by (simp add: floor_unique)
    with a True show ?thesis by (simp add: rne_def Let_def)
  next
    case False
    with a have f: "\<lfloor>q\<rfloor> = n - 1" by (intro floor_unique) simp_all
    with a False have "1 / 2 < q - of_int \<lfloor>q\<rfloor>" by simp
    with f show ?thesis by (simp add: rne_def Let_def)
  qed
qed

lemma rne_tie_up: "q = of_int n - 1 / 2 \<Longrightarrow> even n \<Longrightarrow> rne q = n"
proof -
  assume a: "q = of_int n - 1 / 2" and e: "even n"
  have f: "\<lfloor>q\<rfloor> = n - 1" using a by (intro floor_unique) simp_all
  have "q - of_int \<lfloor>q\<rfloor> = 1 / 2" using a f by simp
  moreover have "odd (n - 1)" using e by simp
  ultimately show ?thesis using f by (simp add: rne_def Let_def)
qed


lemma fl_eqI:
  assumes "pow2 e \<le> \<bar>x\<bar>" and "\<bar>x\<bar> < pow2 (e + 1)" and "- 1022 \<le> e"
    and "rne (x / pow2 (e - 52)) = n"
    and "\<bar>of_int n * pow2 (e - 52)\<bar> < 2 ^ 1024"
  shows "fl x = Fin (of_int n * pow2 (e - 52))"
proof -
  have "x \<noteq> 0" using assms(1) pow2_pos [of e] by auto
  moreover have "binade x = e" using assms(1-3) by (rule binade_eqI)
  ultimately show ?thesis using assms(4,5) by (simp add: fl_def Let_def)
qed

lemma rne_of_int: "rne (of_int n) = n"
  by (rule rne_eqI) simp

lemma rne_near: "\<bar>of_int (rne q) - q\<bar> \<le> 1 / 2"
proof -
  have "of_int \<lfloor>q\<rfloor> \<le> q" "q < of_int \<lfloor>q\<rfloor> + 1" by linarith+
  then show ?thesis
    by (auto simp add: rne_def Let_def abs_le_iff)
qed

lemma rne_mono: "a \<le> b \<Longrightarrow> rne a \<le> rne b"
proof (rule ccontr)
  assume ab: "a \<le> b" and "\<not> rne a \<le> rne b"
  then have "rne b + 1 \<le> rne a" by simp
  then have gap: "real_of_int (rne b) + 1 \<le> of_int (rne a)"
    by (metis of_int_1 of_int_add of_int_le_iff)
  have na: "of_int (rne a) - 1 / 2 \<le> a" and nb: "b \<le> of_int (rne b) + 1 / 2"
    using rne_near [of a] rne_near [of b] by linarith+
  from gap na nb ab have "a = b" by linarith
  with \<open>\<not> rne a \<le> rne b\<close> show False by simp
qed

lemma rne_lower: "of_int lo \<le> q \<Longrightarrow> lo \<le> rne q"
  using rne_mono [of "of_int lo" q] by (simp add: rne_of_int)

lemma rne_upper: "q \<le> of_int hi \<Longrightarrow> rne q \<le> hi"
  using rne_mono [of q "of_int hi"] by (simp add: rne_of_int)

text \<open>The binade of a value and the quotient that is rounded.\<close>

lemma binade_upper: "x \<noteq> 0 \<Longrightarrow> \<bar>x\<bar> < pow2 (binade x + 1)"
proof -
  assume "x \<noteq> 0"
  then have pos: "0 < \<bar>x\<bar>" by simp
  have "\<bar>x\<bar> < 2 powr (of_int (\<lfloor>log 2 \<bar>x\<bar>\<rfloor> + 1))"
    using pos floor_log_eq_powr_iff [of "\<bar>x\<bar>" 2 "\<lfloor>log 2 \<bar>x\<bar>\<rfloor>"] by simp
  also have "\<dots> \<le> 2 powr (of_int (binade x + 1))"
    by (simp add: binade_def)
  finally show ?thesis by (simp add: pow2_powr)
qed

lemma binade_lower: "x \<noteq> 0 \<Longrightarrow> - 1022 < binade x \<Longrightarrow> pow2 (binade x) \<le> \<bar>x\<bar>"
proof -
  assume "x \<noteq> 0" and n: "- 1022 < binade x"
  then have pos: "0 < \<bar>x\<bar>" by simp
  from n have "binade x = \<lfloor>log 2 \<bar>x\<bar>\<rfloor>" by (simp add: binade_def max_def split: if_splits)
  then show ?thesis
    using pos floor_log_eq_powr_iff [of "\<bar>x\<bar>" 2 "\<lfloor>log 2 \<bar>x\<bar>\<rfloor>"] by (simp add: pow2_powr)
qed

lemma binade_ge: "- 1022 \<le> binade x"
  by (simp add: binade_def)

lemma binade_subnormal: "x \<noteq> 0 \<Longrightarrow> \<bar>x\<bar> < pow2 (- 1022) \<Longrightarrow> binade x = - 1022"
proof -
  assume "x \<noteq> 0" and small: "\<bar>x\<bar> < pow2 (- 1022)"
  then have pos: "0 < \<bar>x\<bar>" by simp
  have "\<not> - 1022 < binade x"
  proof
    assume "- 1022 < binade x"
    with \<open>x \<noteq> 0\<close> have "pow2 (binade x) \<le> \<bar>x\<bar>" by (rule binade_lower)
    moreover have "pow2 (- 1022) \<le> pow2 (binade x)" by (rule pow2_mono) (rule binade_ge)
    ultimately show False using small by linarith
  qed
  with binade_ge [of x] show ?thesis by linarith
qed

lemma pow2_split_hi: "pow2 (e + 1) = 2 ^ 53 * pow2 (e - 52)"
proof -
  have "pow2 (53 + (e - 52)) = pow2 53 * pow2 (e - 52)" by (rule pow2_add)
  moreover have "53 + (e - 52) = e + 1" by simp
  moreover have "pow2 53 = 2 ^ 53" by (simp add: pow2_def)
  ultimately show ?thesis by simp
qed

lemma pow2_split_lo: "pow2 e = 2 ^ 52 * pow2 (e - 52)"
proof -
  have "pow2 (52 + (e - 52)) = pow2 52 * pow2 (e - 52)" by (rule pow2_add)
  moreover have "52 + (e - 52) = e" by simp
  moreover have "pow2 52 = 2 ^ 52" by (simp add: pow2_def)
  ultimately show ?thesis by simp
qed

lemma quotient_upper: "x \<noteq> 0 \<Longrightarrow> \<bar>x / pow2 (binade x - 52)\<bar> < 2 ^ 53"
proof -
  assume "x \<noteq> 0"
  then have "\<bar>x\<bar> < pow2 (binade x + 1)" by (rule binade_upper)
  then have "\<bar>x\<bar> < 2 ^ 53 * pow2 (binade x - 52)"
    by (simp only: pow2_split_hi)
  then have "\<bar>x\<bar> / pow2 (binade x - 52) < 2 ^ 53"
    using pow2_pos [of "binade x - 52"] by (simp add: pos_divide_less_eq)
  then show ?thesis
    using pow2_pos [of "binade x - 52"] by (simp add: abs_divide)
qed

lemma quotient_lower:
  "x \<noteq> 0 \<Longrightarrow> - 1022 < binade x \<Longrightarrow> 2 ^ 52 \<le> \<bar>x / pow2 (binade x - 52)\<bar>"
proof -
  assume "x \<noteq> 0" and "- 1022 < binade x"
  then have "pow2 (binade x) \<le> \<bar>x\<bar>" by (rule binade_lower)
  then have "2 ^ 52 * pow2 (binade x - 52) \<le> \<bar>x\<bar>"
    using pow2_split_lo [of "binade x"] by simp
  then have "2 ^ 52 \<le> \<bar>x\<bar> / pow2 (binade x - 52)"
    using pow2_pos [of "binade x - 52"] by (simp add: pos_le_divide_eq)
  then show ?thesis
    using pow2_pos [of "binade x - 52"] by (simp add: abs_divide)
qed

lemma fl_binadeI:
  assumes "x \<noteq> 0" and "binade x = e" and "rne (x / pow2 (e - 52)) = n"
    and "\<bar>of_int n * pow2 (e - 52)\<bar> < 2 ^ 1024"
  shows "fl x = Fin (of_int n * pow2 (e - 52))"
  using assms by (simp add: fl_def Let_def)

lemma fl_not_NaN: "fl x \<noteq> NaN"
  by (simp add: fl_def Let_def)

lemma rne_abs_bound: "\<bar>q\<bar> < 2 ^ 53 \<Longrightarrow> \<bar>rne q\<bar> \<le> 2 ^ 53"
proof -
  assume "\<bar>q\<bar> < 2 ^ 53"
  then have a: "of_int (- (2 ^ 53)) \<le> q" and b: "q \<le> of_int (2 ^ 53)" by simp_all
  from a have "- (2 ^ 53) \<le> rne q" by (rule rne_lower)
  moreover from b have "rne q \<le> 2 ^ 53" by (rule rne_upper)
  ultimately show ?thesis by simp
qed

lemma rne_abs_lower: "2 ^ 52 \<le> \<bar>q\<bar> \<Longrightarrow> 2 ^ 52 \<le> \<bar>rne q\<bar>"
proof -
  assume a: "2 ^ 52 \<le> \<bar>q\<bar>"
  show ?thesis
  proof (cases "0 \<le> q")
    case True
    with a have "of_int (2 ^ 52) \<le> q" by simp
    then have "2 ^ 52 \<le> rne q" by (rule rne_lower)
    then show ?thesis by simp
  next
    case False
    with a have "q \<le> of_int (- (2 ^ 52))" by simp
    then have "rne q \<le> - (2 ^ 52)" by (rule rne_upper)
    then show ?thesis by simp
  qed
qed

text \<open>Rounding leaves a value that is itself the result of a rounding as it is.\<close>

lemma fl_idem:
  assumes "fl x = Fin y"
  shows "fl y = Fin y"
proof (cases "x = 0 \<or> y = 0")
  case True
  with assms show ?thesis by (auto simp add: fl_def)
next
  case False
  then have x: "x \<noteq> 0" and y0: "y \<noteq> 0" by simp_all
  define e where "e = binade x"
  define u where "u = pow2 (e - 52)"
  define n where "n = rne (x / u)"
  have u: "0 < u" by (simp add: u_def pow2_pos)
  from assms x have y: "y = of_int n * u" and fin: "\<bar>y\<bar> < 2 ^ 1024"
    by (simp_all add: fl_def Let_def e_def u_def n_def split: if_splits)
  have absy: "\<bar>y\<bar> = of_int \<bar>n\<bar> * u"
    using u by (simp add: y abs_mult)
  have nhi: "\<bar>n\<bar> \<le> 2 ^ 53"
    unfolding n_def u_def e_def using x by (intro rne_abs_bound quotient_upper)
  consider "\<bar>n\<bar> = 2 ^ 53" | "2 ^ 52 \<le> \<bar>n\<bar>" "\<bar>n\<bar> < 2 ^ 53" | "\<bar>n\<bar> < 2 ^ 52"
    using nhi by linarith
  then show ?thesis
  proof cases
    case 1
    then have ay: "\<bar>y\<bar> = pow2 (e + 1)"
      by (simp add: absy pow2_split_hi u_def)
    have u2': "pow2 (e - 51) = 2 * u"
      using pow2_add [of 1 "e - 52"] by (simp add: u_def pow2_def)
    then have u2: "pow2 (e + 1 - 52) = 2 * u" by simp
    have be: "binade y = e + 1"
    proof (rule binade_eqI)
      show "pow2 (e + 1) \<le> \<bar>y\<bar>" by (simp add: ay)
      show "\<bar>y\<bar> < pow2 (e + 1 + 1)" unfolding ay by (rule pow2_strict_mono) simp
      show "- 1022 \<le> e + 1" using binade_ge [of x] by (simp add: e_def)
    qed
    from 1 have "n = 2 * 2 ^ 52 \<or> n = 2 * (- (2 ^ 52))" by (simp add: abs_if split: if_splits)
    then obtain k where k: "n = 2 * k" by blast
    have q: "y / pow2 (e - 51) = of_int k"
      using u by (simp add: u2' y k)
    have "fl y = Fin (of_int k * pow2 (e + 1 - 52))"
    proof (rule fl_binadeI [OF y0 be])
      show "rne (y / pow2 (e + 1 - 52)) = k" by (simp add: q rne_of_int)
      show "\<bar>of_int k * pow2 (e + 1 - 52)\<bar> < 2 ^ 1024"
        using fin by (simp add: u2' y k)
    qed
    then show ?thesis by (simp add: u2' y k)
  next
    case 2
    have lo: "pow2 e \<le> \<bar>y\<bar>"
    proof -
      have "2 ^ 52 * u \<le> of_int \<bar>n\<bar> * u"
        using 2(1) u by (intro mult_right_mono) (simp_all add: of_int_le_iff [symmetric] del: of_int_le_iff)
      then show ?thesis by (simp add: absy pow2_split_lo [of e] u_def)
    qed
    have hi: "\<bar>y\<bar> < pow2 (e + 1)"
    proof -
      have "real_of_int \<bar>n\<bar> < 2 ^ 53" using 2(2) by (simp add: of_int_less_iff [symmetric] del: of_int_less_iff)
      then have "of_int \<bar>n\<bar> * u < 2 ^ 53 * u"
        using u by (intro mult_strict_right_mono)
      then show ?thesis by (simp add: absy pow2_split_hi u_def)
    qed
    have be: "binade y = e"
      using lo hi binade_ge [of x] by (intro binade_eqI) (simp_all add: e_def)
    have "fl y = Fin (of_int n * pow2 (e - 52))"
    proof (rule fl_binadeI [OF y0 be])
      show "rne (y / pow2 (e - 52)) = n" using u by (simp add: y u_def [symmetric] rne_of_int)
      show "\<bar>of_int n * pow2 (e - 52)\<bar> < 2 ^ 1024" using fin by (simp add: y u_def)
    qed
    then show ?thesis by (simp add: y u_def)
  next
    case 3
    have esub: "e = - 1022"
    proof (rule ccontr)
      assume "e \<noteq> - 1022"
      with binade_ge [of x] have "- 1022 < binade x" by (simp add: e_def)
      with x have "2 ^ 52 \<le> \<bar>x / pow2 (binade x - 52)\<bar>" by (rule quotient_lower)
      then have "2 ^ 52 \<le> \<bar>n\<bar>"
        unfolding n_def u_def e_def by (rule rne_abs_lower)
      with 3 show False by simp
    qed
    have "real_of_int \<bar>n\<bar> < 2 ^ 52" using 3 by (simp add: of_int_less_iff [symmetric] del: of_int_less_iff)
    then have "of_int \<bar>n\<bar> * u < 2 ^ 52 * u"
      using u by (intro mult_strict_right_mono)
    then have "\<bar>y\<bar> < pow2 e" by (simp add: absy pow2_split_lo [of e] u_def)
    with y0 have be: "binade y = e" unfolding esub by (intro binade_subnormal)
    have "fl y = Fin (of_int n * pow2 (e - 52))"
    proof (rule fl_binadeI [OF y0 be])
      show "rne (y / pow2 (e - 52)) = n" using u by (simp add: y u_def [symmetric] rne_of_int)
      show "\<bar>of_int n * pow2 (e - 52)\<bar> < 2 ^ 1024" using fin by (simp add: y u_def)
    qed
    then show ?thesis by (simp add: y u_def)
  qed
qed




















lemma round64_not_NaN: "r \<noteq> NaN \<Longrightarrow> round64 r \<noteq> NaN"
  by (cases r) (simp_all add: round64_def fl_not_NaN)







lemma round64_idem: "round64 (round64 r) = round64 r"
proof (cases r)
  case (Fin x)
  show ?thesis
  proof (cases "fl x")
    case (Fin y)
    then have "fl y = Fin y" by (rule fl_idem)
    with Fin \<open>r = Fin x\<close> show ?thesis by (simp add: round64_def)
  qed (simp_all add: round64_def \<open>r = Fin x\<close>)
qed (simp_all add: round64_def)

lemma add64_zero_left: "add64 (Fin 0) (round64 r) = round64 r"
  by (simp add: add64_def jadd_zero_left round64_idem)

lemma tradePnL64_rounded: "\<exists>r. tradePnL64 c s t = round64 r"
  by (auto simp add: tradePnL64_def mul64_def Let_def)

lemma pnl64_snoc:
  "calculateUnhedgedPnL64 (ts @ [t]) c s = add64 (calculateUnhedgedPnL64 ts c s) (tradePnL64 c s t)"
  by (simp add: calculateUnhedgedPnL64_def)

lemma pnl64_rounded: "\<exists>r. calculateUnhedgedPnL64 ts c s = round64 r"
proof (cases ts rule: rev_cases)
  case Nil
  have "round64 (Fin 0) = Fin 0" by (simp add: round64_def fl_def)
  then have "calculateUnhedgedPnL64 [] c s = round64 (Fin 0)"
    by (simp add: calculateUnhedgedPnL64_def)
  with Nil show ?thesis by blast
next
  case (snoc ys y)
  then show ?thesis by (auto simp add: pnl64_snoc add64_def)
qed

lemma fl_sqrt_eqI:
  assumes "(pow2 e)\<^sup>2 \<le> a" and "a < (pow2 (e + 1))\<^sup>2" and "- 1022 \<le> e"
    and "((of_int n - 1 / 2) * pow2 (e - 52))\<^sup>2 < a"
    and "a < ((of_int n + 1 / 2) * pow2 (e - 52))\<^sup>2"
    and "1 \<le> n" and "\<bar>of_int n * pow2 (e - 52)\<bar> < 2 ^ 1024"
  shows "fl (sqrt a) = Fin (of_int n * pow2 (e - 52))"
proof -
  let ?u = "pow2 (e - 52)"
  have u: "0 < ?u" by (rule pow2_pos)
  have a0: "0 \<le> a" using assms(1) by (meson order_trans zero_le_power2)
  have lo: "pow2 e \<le> sqrt a" using assms(1) by (rule real_le_rsqrt)
  have hi: "sqrt a < pow2 (e + 1)"
    using assms(2) pow2_pos [of "e + 1"] by (intro real_less_lsqrt) simp_all
  have n1: "(of_int n - 1 / 2) * ?u < sqrt a" using assms(4) by (rule real_less_rsqrt)
  have "0 \<le> (real_of_int n + 1 / 2) * ?u" using assms(6) u by simp
  then have n2: "sqrt a < (of_int n + 1 / 2) * ?u"
    using assms(5) by (intro real_less_lsqrt) simp_all
  from n1 n2 u have "of_int n - 1 / 2 < sqrt a / ?u" "sqrt a / ?u < of_int n + 1 / 2"
    by (simp_all add: pos_less_divide_eq pos_divide_less_eq)
  then have "\<bar>sqrt a / ?u - of_int n\<bar> < 1 / 2" by linarith
  then have r: "rne (sqrt a / ?u) = n" by (rule rne_eqI)
  have "\<bar>sqrt a\<bar> = sqrt a" using a0 by simp
  with lo hi have "pow2 e \<le> \<bar>sqrt a\<bar>" "\<bar>sqrt a\<bar> < pow2 (e + 1)" by simp_all
  then show ?thesis using assms(3) r assms(7) by (rule fl_eqI)
qed

subsection \<open>The P&L on doubles\<close>

lemma lit_465: "lit 4.65 = Fin (2617717283409101 / 562949953421312)"
proof -
  have c: "fl (465 / 100) = Fin (2617717283409101 / 562949953421312)"
  proof -
    have "rne ((465 / 100) / pow2 (2 - 52)) = 5235434566818202"
      by (rule rne_eqI) (simp_all add: pow2_def)
    then have "fl (465 / 100) = Fin (of_int 5235434566818202 * pow2 (2 - 52))"
      by (intro fl_eqI) (simp_all add: pow2_def)
    then show ?thesis by (simp add: pow2_def)
  qed
  then show ?thesis by (simp add: lit_def)
qed

lemma lit_47: "lit 4.7 = Fin (5291729562160333 / 1125899906842624)"
proof -
  have s: "fl (47 / 10) = Fin (5291729562160333 / 1125899906842624)"
  proof -
    have "rne ((47 / 10) / pow2 (2 - 52)) = 5291729562160333"
      by (rule rne_eqI) (simp_all add: pow2_def)
    then have "fl (47 / 10) = Fin (of_int 5291729562160333 * pow2 (2 - 52))"
      by (intro fl_eqI) (simp_all add: pow2_def)
    then show ?thesis by (simp add: pow2_def)
  qed
  then show ?thesis by (simp add: lit_def)
qed

text \<open>
  The doubles of the literals \<open>4.65\<close> and \<open>4.7\<close>, and the P&L of three long trades of
  \<open>50000\<close>, \<open>50000\<close> and \<open>500000\<close> dollars between these rates: taken together it is
  \<open>29999.999999999894\<close>, the first alone plus the other two is \<open>29999.999999999898\<close>.
\<close>

theorem pnl_not_additive_counterexample:
  "calculateUnhedgedPnL64 ([longTrade 50000] @ [longTrade 50000, longTrade 500000]) (lit 4.65) (lit 4.7) =
     Fin (8246337208319971 / 274877906944) \<and>
   add64 (calculateUnhedgedPnL64 [longTrade 50000] (lit 4.65) (lit 4.7))
         (calculateUnhedgedPnL64 [longTrade 50000, longTrade 500000] (lit 4.65) (lit 4.7)) =
     Fin (2061584302079993 / 68719476736) \<and>
   \<not> jeq (calculateUnhedgedPnL64 ([longTrade 50000] @ [longTrade 50000, longTrade 500000]) (lit 4.65) (lit 4.7))
     (add64 (calculateUnhedgedPnL64 [longTrade 50000] (lit 4.65) (lit 4.7))
            (calculateUnhedgedPnL64 [longTrade 50000, longTrade 500000] (lit 4.65) (lit 4.7)))"
proof -
  have d: "fl ((5291729562160333 / 1125899906842624) - (2617717283409101 / 562949953421312)) = Fin (56294995342131 / 1125899906842624)"
  proof -
    have "rne (((5291729562160333 / 1125899906842624) - (2617717283409101 / 562949953421312)) / pow2 ((- 5) - 52)) = 7205759403792768"
      by (rule rne_eqI) (simp_all add: pow2_def)
    then have "fl ((5291729562160333 / 1125899906842624) - (2617717283409101 / 562949953421312)) = Fin (of_int 7205759403792768 * pow2 ((- 5) - 52))"
      by (intro fl_eqI) (simp_all add: pow2_def)
    then show ?thesis by (simp add: pow2_def)
  qed
  have a: "fl (50000 * (56294995342131 / 1125899906842624)) = Fin (1374389534719995 / 549755813888)"
  proof -
    have "rne ((50000 * (56294995342131 / 1125899906842624)) / pow2 (11 - 52)) = 5497558138879980"
      by (rule rne_eqI) (simp_all add: pow2_def)
    then have "fl (50000 * (56294995342131 / 1125899906842624)) = Fin (of_int 5497558138879980 * pow2 (11 - 52))"
      by (intro fl_eqI) (simp_all add: pow2_def)
    then show ?thesis by (simp add: pow2_def)
  qed
  have b: "fl (500000 * (56294995342131 / 1125899906842624)) = Fin (858993459199997 / 34359738368)"
  proof -
    have "rne ((500000 * (56294995342131 / 1125899906842624)) / pow2 (14 - 52)) = 6871947673599976"
      by (rule rne_eqI) (simp_all add: pow2_def)
    then have "fl (500000 * (56294995342131 / 1125899906842624)) = Fin (of_int 6871947673599976 * pow2 (14 - 52))"
      by (intro fl_eqI) (simp_all add: pow2_def)
    then show ?thesis by (simp add: pow2_def)
  qed
  have a0: "fl (0 + (1374389534719995 / 549755813888)) = Fin (1374389534719995 / 549755813888)"
  proof -
    have "rne ((0 + (1374389534719995 / 549755813888)) / pow2 (11 - 52)) = 5497558138879980"
      by (rule rne_eqI) (simp_all add: pow2_def)
    then have "fl (0 + (1374389534719995 / 549755813888)) = Fin (of_int 5497558138879980 * pow2 (11 - 52))"
      by (intro fl_eqI) (simp_all add: pow2_def)
    then show ?thesis by (simp add: pow2_def)
  qed
  have aa: "fl ((1374389534719995 / 549755813888) + (1374389534719995 / 549755813888)) = Fin (1374389534719995 / 274877906944)"
  proof -
    have "rne (((1374389534719995 / 549755813888) + (1374389534719995 / 549755813888)) / pow2 (12 - 52)) = 5497558138879980"
      by (rule rne_eqI) (simp_all add: pow2_def)
    then have "fl ((1374389534719995 / 549755813888) + (1374389534719995 / 549755813888)) = Fin (of_int 5497558138879980 * pow2 (12 - 52))"
      by (intro fl_eqI) (simp_all add: pow2_def)
    then show ?thesis by (simp add: pow2_def)
  qed
  have lhs: "fl ((1374389534719995 / 274877906944) + (858993459199997 / 34359738368)) = Fin (8246337208319971 / 274877906944)"
  proof -
    have "rne (((1374389534719995 / 274877906944) + (858993459199997 / 34359738368)) / pow2 (14 - 52)) = 8246337208319971"
      by (rule rne_eqI) (simp_all add: pow2_def)
    then have "fl ((1374389534719995 / 274877906944) + (858993459199997 / 34359738368)) = Fin (of_int 8246337208319971 * pow2 (14 - 52))"
      by (intro fl_eqI) (simp_all add: pow2_def)
    then show ?thesis by (simp add: pow2_def)
  qed
  have ab: "fl ((1374389534719995 / 549755813888) + (858993459199997 / 34359738368)) = Fin (3779571220479987 / 137438953472)"
  proof -
    have "rne (((1374389534719995 / 549755813888) + (858993459199997 / 34359738368)) / pow2 (14 - 52)) = 7559142440959974"
      by (rule rne_tie_up) (simp_all add: pow2_def)
    then have "fl ((1374389534719995 / 549755813888) + (858993459199997 / 34359738368)) = Fin (of_int 7559142440959974 * pow2 (14 - 52))"
      by (intro fl_eqI) (simp_all add: pow2_def)
    then show ?thesis by (simp add: pow2_def)
  qed
  have rhs: "fl ((1374389534719995 / 549755813888) + (3779571220479987 / 137438953472)) = Fin (2061584302079993 / 68719476736)"
  proof -
    have "rne (((1374389534719995 / 549755813888) + (3779571220479987 / 137438953472)) / pow2 (14 - 52)) = 8246337208319972"
      by (rule rne_tie_up) (simp_all add: pow2_def)
    then have "fl ((1374389534719995 / 549755813888) + (3779571220479987 / 137438953472)) = Fin (of_int 8246337208319972 * pow2 (14 - 52))"
      by (intro fl_eqI) (simp_all add: pow2_def)
    then show ?thesis by (simp add: pow2_def)
  qed
  have ta: "tradePnL64 (Fin (2617717283409101 / 562949953421312)) (Fin (5291729562160333 / 1125899906842624)) (longTrade 50000) = Fin (1374389534719995 / 549755813888)"
    using d a by (simp add: tradePnL64_def sub64_def mul64_def round64_def jsub_def longTrade_def Let_def)
  have tb: "tradePnL64 (Fin (2617717283409101 / 562949953421312)) (Fin (5291729562160333 / 1125899906842624)) (longTrade 500000) = Fin (858993459199997 / 34359738368)"
    using d b by (simp add: tradePnL64_def sub64_def mul64_def round64_def jsub_def longTrade_def Let_def)
  have l: "calculateUnhedgedPnL64 ([longTrade 50000] @ [longTrade 50000, longTrade 500000]) (Fin (2617717283409101 / 562949953421312)) (Fin (5291729562160333 / 1125899906842624)) =
     Fin (8246337208319971 / 274877906944)"
    using a0 aa lhs by (simp add: calculateUnhedgedPnL64_def ta tb add64_def round64_def)
  have p1: "calculateUnhedgedPnL64 [longTrade 50000] (Fin (2617717283409101 / 562949953421312)) (Fin (5291729562160333 / 1125899906842624)) = Fin (1374389534719995 / 549755813888)"
    using a0 by (simp add: calculateUnhedgedPnL64_def ta add64_def round64_def)
  have p2: "calculateUnhedgedPnL64 [longTrade 50000, longTrade 500000] (Fin (2617717283409101 / 562949953421312)) (Fin (5291729562160333 / 1125899906842624)) = Fin (3779571220479987 / 137438953472)"
    using a0 ab by (simp add: calculateUnhedgedPnL64_def ta tb add64_def round64_def)
  have r: "add64 (calculateUnhedgedPnL64 [longTrade 50000] (Fin (2617717283409101 / 562949953421312)) (Fin (5291729562160333 / 1125899906842624)))
         (calculateUnhedgedPnL64 [longTrade 50000, longTrade 500000] (Fin (2617717283409101 / 562949953421312)) (Fin (5291729562160333 / 1125899906842624))) =
     Fin (2061584302079993 / 68719476736)"
    using rhs by (simp add: p1 p2 add64_def round64_def)
  show ?thesis
    unfolding lit_465 lit_47 l r by simp
qed

text \<open>
  C6, as amended. On doubles the P&L is additive where the second list has one trade, and
  where the first list is empty: the P&L of \<open>trades1\<close> followed by one trade is that of
  \<open>trades1\<close> plus that of the one trade, and the P&L of a list is that of the empty
  list plus its own.
\<close>

theorem pnl_additive_one:
  "calculateUnhedgedPnL64 (trades1 @ [trade]) currentRate shockedRate =
     add64 (calculateUnhedgedPnL64 trades1 currentRate shockedRate)
           (calculateUnhedgedPnL64 [trade] currentRate shockedRate) \<and>
   calculateUnhedgedPnL64 ([] @ trades2) currentRate shockedRate =
     add64 (calculateUnhedgedPnL64 [] currentRate shockedRate)
           (calculateUnhedgedPnL64 trades2 currentRate shockedRate)"
proof
  obtain r where r: "tradePnL64 currentRate shockedRate trade = round64 r"
    using tradePnL64_rounded by blast
  have "calculateUnhedgedPnL64 [trade] currentRate shockedRate = round64 r"
    using pnl64_snoc [of "[]" trade currentRate shockedRate]
    by (simp add: r add64_zero_left calculateUnhedgedPnL64_def)
  then show "calculateUnhedgedPnL64 (trades1 @ [trade]) currentRate shockedRate =
     add64 (calculateUnhedgedPnL64 trades1 currentRate shockedRate)
           (calculateUnhedgedPnL64 [trade] currentRate shockedRate)"
    by (simp only: pnl64_snoc r)
next
  obtain r where r: "calculateUnhedgedPnL64 trades2 currentRate shockedRate = round64 r"
    using pnl64_rounded by blast
  have "calculateUnhedgedPnL64 [] currentRate shockedRate = Fin 0"
    by (simp add: calculateUnhedgedPnL64_def)
  then show "calculateUnhedgedPnL64 ([] @ trades2) currentRate shockedRate =
     add64 (calculateUnhedgedPnL64 [] currentRate shockedRate)
           (calculateUnhedgedPnL64 trades2 currentRate shockedRate)"
    by (simp add: r add64_zero_left)
qed

subsection \<open>The sensitivity curve on doubles\<close>













subsection \<open>Value at risk on doubles\<close>

lemma lit_095: "lit 0.95 = Fin (4278419646001971 / 4503599627370496)"
proof -
  have h: "fl (95 / 100) = Fin (4278419646001971 / 4503599627370496)"
  proof -
    have "rne ((95 / 100) / pow2 ((- 1) - 52)) = 8556839292003942"
      by (rule rne_eqI) (simp_all add: pow2_def)
    then have "fl (95 / 100) = Fin (of_int 8556839292003942 * pow2 ((- 1) - 52))"
      by (intro fl_eqI) (simp_all add: pow2_def)
    then show ?thesis by (simp add: pow2_def)
  qed
  then show ?thesis by (simp add: lit_def)
qed
lemma lit_099: "lit 0.99 = Fin (4458563631096791 / 4503599627370496)"
proof -
  have h: "fl (99 / 100) = Fin (4458563631096791 / 4503599627370496)"
  proof -
    have "rne ((99 / 100) / pow2 ((- 1) - 52)) = 8917127262193582"
      by (rule rne_eqI) (simp_all add: pow2_def)
    then have "fl (99 / 100) = Fin (of_int 8917127262193582 * pow2 ((- 1) - 52))"
      by (intro fl_eqI) (simp_all add: pow2_def)
    then show ?thesis by (simp add: pow2_def)
  qed
  then show ?thesis by (simp add: lit_def)
qed
lemma lit_1645: "lit 1.645 = Fin (3704210693512233 / 2251799813685248)"
proof -
  have h: "fl (1645 / 1000) = Fin (3704210693512233 / 2251799813685248)"
  proof -
    have "rne ((1645 / 1000) / pow2 (0 - 52)) = 7408421387024466"
      by (rule rne_eqI) (simp_all add: pow2_def)
    then have "fl (1645 / 1000) = Fin (of_int 7408421387024466 * pow2 (0 - 52))"
      by (intro fl_eqI) (simp_all add: pow2_def)
    then show ?thesis by (simp add: pow2_def)
  qed
  then show ?thesis by (simp add: lit_def)
qed
lemma lit_233: "lit 2.33 = Fin (1311673391471657 / 562949953421312)"
proof -
  have h: "fl (233 / 100) = Fin (1311673391471657 / 562949953421312)"
  proof -
    have "rne ((233 / 100) / pow2 (1 - 52)) = 5246693565886628"
      by (rule rne_eqI) (simp_all add: pow2_def)
    then have "fl (233 / 100) = Fin (of_int 5246693565886628 * pow2 (1 - 52))"
      by (intro fl_eqI) (simp_all add: pow2_def)
    then show ?thesis by (simp add: pow2_def)
  qed
  then show ?thesis by (simp add: lit_def)
qed
lemma lit_015: "lit 0.15 = Fin (5404319552844595 / 36028797018963968)"
proof -
  have h: "fl (15 / 100) = Fin (5404319552844595 / 36028797018963968)"
  proof -
    have "rne ((15 / 100) / pow2 ((- 3) - 52)) = 5404319552844595"
      by (rule rne_eqI) (simp_all add: pow2_def)
    then have "fl (15 / 100) = Fin (of_int 5404319552844595 * pow2 ((- 3) - 52))"
      by (intro fl_eqI) (simp_all add: pow2_def)
    then show ?thesis by (simp add: pow2_def)
  qed
  then show ?thesis by (simp add: lit_def)
qed

lemma zScore64_095: "zScore64 (lit 0.95) = lit 1.645"
  unfolding zScore64_def lit_095 by simp

lemma zScore64_099: "zScore64 (lit 0.99) = lit 2.33"
  unfolding zScore64_def lit_095 lit_099 by simp

text \<open>
  At an exposure of a million, volatility \<open>0.15\<close> and one day, the value at risk at
  \<open>0.95\<close> divided by the one at \<open>0.99\<close> is \<open>0.7060085836909872\<close>, while \<open>1.645 / 2.33\<close>
  is \<open>0.7060085836909871\<close>.
\<close>

theorem var_ratio_counterexample:
  "div64 (calculateVaR64 (Fin 1000000) (lit 0.15) (lit 0.95) (Fin 1))
         (calculateVaR64 (Fin 1000000) (lit 0.15) (lit 0.99) (Fin 1)) = Fin (6359159988862203 / 9007199254740992) \<and>
   div64 (lit 1.645) (lit 2.33) = Fin (3179579994431101 / 4503599627370496) \<and>
   \<not> jeq (div64 (calculateVaR64 (Fin 1000000) (lit 0.15) (lit 0.95) (Fin 1))
                 (calculateVaR64 (Fin 1000000) (lit 0.15) (lit 0.99) (Fin 1)))
          (div64 (lit 1.645) (lit 2.33))"
proof -
  have q: "fl (1 / 252) = Fin (285942833483841 / 72057594037927936)"
  proof -
    have "rne ((1 / 252) / pow2 ((- 8) - 52)) = 4575085335741456"
      by (rule rne_eqI) (simp_all add: pow2_def)
    then have "fl (1 / 252) = Fin (of_int 4575085335741456 * pow2 ((- 8) - 52))"
      by (intro fl_eqI) (simp_all add: pow2_def)
    then show ?thesis by (simp add: pow2_def)
  qed
  have sq: "fl (sqrt (285942833483841 / 72057594037927936)) = Fin (2269600879738189 / 36028797018963968)"
  proof -
    have "fl (sqrt (285942833483841 / 72057594037927936)) = Fin (of_int 4539201759476378 * pow2 ((- 4) - 52))"
      by (rule fl_sqrt_eqI) (simp_all add: pow2_def power2_eq_square)
    then show ?thesis by (simp add: pow2_def)
  qed
  have sv: "fl ((5404319552844595 / 36028797018963968) * (2269600879738189 / 36028797018963968)) = Fin (5447042111371653 / 576460752303423488)"
  proof -
    have "rne (((5404319552844595 / 36028797018963968) * (2269600879738189 / 36028797018963968)) / pow2 ((- 7) - 52)) = 5447042111371653"
      by (rule rne_eqI) (simp_all add: pow2_def)
    then have "fl ((5404319552844595 / 36028797018963968) * (2269600879738189 / 36028797018963968)) = Fin (of_int 5447042111371653 * pow2 ((- 7) - 52))"
      by (intro fl_eqI) (simp_all add: pow2_def)
    then show ?thesis by (simp add: pow2_def)
  qed
  have xs: "fl (1000000 * (5447042111371653 / 576460752303423488)) = Fin (2597352080999209 / 274877906944)"
  proof -
    have "rne ((1000000 * (5447042111371653 / 576460752303423488)) / pow2 (13 - 52)) = 5194704161998418"
      by (rule rne_eqI) (simp_all add: pow2_def)
    then have "fl (1000000 * (5447042111371653 / 576460752303423488)) = Fin (of_int 5194704161998418 * pow2 (13 - 52))"
      by (intro fl_eqI) (simp_all add: pow2_def)
    then show ?thesis by (simp add: pow2_def)
  qed
  have v1: "fl ((2597352080999209 / 274877906944) * (3704210693512233 / 2251799813685248)) = Fin (4272644173243699 / 274877906944)"
  proof -
    have "rne (((2597352080999209 / 274877906944) * (3704210693512233 / 2251799813685248)) / pow2 (13 - 52)) = 8545288346487398"
      by (rule rne_eqI) (simp_all add: pow2_def)
    then have "fl ((2597352080999209 / 274877906944) * (3704210693512233 / 2251799813685248)) = Fin (of_int 8545288346487398 * pow2 (13 - 52))"
      by (intro fl_eqI) (simp_all add: pow2_def)
    then show ?thesis by (simp add: pow2_def)
  qed
  have v2: "fl ((2597352080999209 / 274877906944) * (1311673391471657 / 562949953421312)) = Fin (6051830348728157 / 274877906944)"
  proof -
    have "rne (((2597352080999209 / 274877906944) * (1311673391471657 / 562949953421312)) / pow2 (14 - 52)) = 6051830348728157"
      by (rule rne_eqI) (simp_all add: pow2_def)
    then have "fl ((2597352080999209 / 274877906944) * (1311673391471657 / 562949953421312)) = Fin (of_int 6051830348728157 * pow2 (14 - 52))"
      by (intro fl_eqI) (simp_all add: pow2_def)
    then show ?thesis by (simp add: pow2_def)
  qed
  have ratio: "fl ((4272644173243699 / 274877906944) / (6051830348728157 / 274877906944)) = Fin (6359159988862203 / 9007199254740992)"
  proof -
    have "rne (((4272644173243699 / 274877906944) / (6051830348728157 / 274877906944)) / pow2 ((- 1) - 52)) = 6359159988862203"
      by (rule rne_eqI) (simp_all add: pow2_def)
    then have "fl ((4272644173243699 / 274877906944) / (6051830348728157 / 274877906944)) = Fin (of_int 6359159988862203 * pow2 ((- 1) - 52))"
      by (intro fl_eqI) (simp_all add: pow2_def)
    then show ?thesis by (simp add: pow2_def)
  qed
  have lr: "fl ((3704210693512233 / 2251799813685248) / (1311673391471657 / 562949953421312)) = Fin (3179579994431101 / 4503599627370496)"
  proof -
    have "rne (((3704210693512233 / 2251799813685248) / (1311673391471657 / 562949953421312)) / pow2 ((- 1) - 52)) = 6359159988862202"
      by (rule rne_eqI) (simp_all add: pow2_def)
    then have "fl ((3704210693512233 / 2251799813685248) / (1311673391471657 / 562949953421312)) = Fin (of_int 6359159988862202 * pow2 ((- 1) - 52))"
      by (intro fl_eqI) (simp_all add: pow2_def)
    then show ?thesis by (simp add: pow2_def)
  qed
  have s: "mul64 (Fin 1000000) (mul64 (Fin (5404319552844595 / 36028797018963968)) (sqrt64 (div64 (Fin 1) (Fin 252)))) = Fin (2597352080999209 / 274877906944)"
    using q sq sv xs by (simp add: mul64_def div64_def sqrt64_def round64_def)
  have a: "calculateVaR64 (Fin 1000000) (Fin (5404319552844595 / 36028797018963968)) (lit 0.95) (Fin 1) = Fin (4272644173243699 / 274877906944)"
    using v1 unfolding calculateVaR64_def Let_def s zScore64_095 lit_1645
    by (simp add: mul64_def round64_def)
  have b: "calculateVaR64 (Fin 1000000) (Fin (5404319552844595 / 36028797018963968)) (lit 0.99) (Fin 1) = Fin (6051830348728157 / 274877906944)"
    using v2 unfolding calculateVaR64_def Let_def s zScore64_099 lit_233
    by (simp add: mul64_def round64_def)
  have c: "div64 (Fin (4272644173243699 / 274877906944)) (Fin (6051830348728157 / 274877906944)) = Fin (6359159988862203 / 9007199254740992)"
    using ratio by (simp add: div64_def round64_def)
  have d: "div64 (Fin (3704210693512233 / 2251799813685248)) (Fin (1311673391471657 / 562949953421312)) = Fin (3179579994431101 / 4503599627370496)"
    using lr by (simp add: div64_def round64_def)
  show ?thesis
    unfolding lit_015 a b c lit_1645 lit_233 d by simp
qed

text \<open>
  C3, as amended. The z-score is the double of \<open>1.645\<close> at the confidence level that is
  the double of \<open>0.95\<close> and the double of \<open>2.33\<close> at every other one, so that the values
  at risk at \<open>0.95\<close> and at any other level are one and the same rounded product of
  exposure and scaled volatility, times \<open>1.645\<close> and times \<open>2.33\<close>.
\<close>

theorem var_zscore64:
  "zScore64 (lit 0.95) = lit 1.645 \<and>
   (cl \<noteq> lit 0.95 \<longrightarrow> zScore64 cl = lit 2.33) \<and>
   calculateVaR64 X V (lit 0.95) T =
     mul64 (mul64 X (mul64 V (sqrt64 (div64 T (Fin 252))))) (lit 1.645) \<and>
   (cl \<noteq> lit 0.95 \<longrightarrow>
      calculateVaR64 X V cl T =
        mul64 (mul64 X (mul64 V (sqrt64 (div64 T (Fin 252))))) (lit 2.33))"
proof (intro conjI impI)
  show z: "zScore64 (lit 0.95) = lit 1.645" by (rule zScore64_095)
  show other: "zScore64 cl = lit 2.33" if "cl \<noteq> lit 0.95"
    using that unfolding zScore64_def lit_095 by (cases cl) simp_all
  show "calculateVaR64 X V (lit 0.95) T =
     mul64 (mul64 X (mul64 V (sqrt64 (div64 T (Fin 252))))) (lit 1.645)"
    unfolding calculateVaR64_def Let_def z ..
  show "calculateVaR64 X V cl T =
        mul64 (mul64 X (mul64 V (sqrt64 (div64 T (Fin 252))))) (lit 2.33)" if "cl \<noteq> lit 0.95"
    unfolding calculateVaR64_def Let_def other [OF that] ..
qed

text \<open>The theorem at the level \<open>0.99\<close>, an exposure of a million, volatility \<open>0.15\<close>, one day.\<close>

theorem var_zscore64_witness:
  "zScore64 (lit 0.95) = lit 1.645 \<and> zScore64 (lit 0.99) = lit 2.33 \<and>
   calculateVaR64 (Fin 1000000) (lit 0.15) (lit 0.99) (Fin 1) =
     mul64 (mul64 (Fin 1000000) (mul64 (lit 0.15) (sqrt64 (div64 (Fin 1) (Fin 252))))) (lit 2.33)"
proof -
  have ne: "lit 0.99 \<noteq> lit 0.95"
    unfolding lit_095 lit_099 by simp
  from var_zscore64 [of "lit 0.99" "Fin 1000000" "lit 0.15" "Fin 1"] ne show ?thesis
    by blast
qed











text \<open>
  \<open>NaN\<close> and infinity also come from overflow, at a horizon that is not negative: with no
  exposure, a volatility of \<open>2^1023\<close> and \<open>1008\<close> days the scaled volatility overflows and
  \<open>0 * Infinity\<close> is \<open>NaN\<close>; with an exposure of \<open>2^1023\<close>, volatility \<open>2\<close> and \<open>252\<close> days
  the result is infinite.
\<close>

lemma rne_numeral: "rne (numeral k) = numeral k"
  by (rule rne_eqI) simp

lemma fl_overflowI:
  assumes "0 < x" and "binade x = e" and "rne (x / pow2 (e - 52)) = n"
    and "2 ^ 1024 \<le> \<bar>of_int n * pow2 (e - 52)\<bar>"
  shows "fl x = PInf"
  using assms by (simp add: fl_def Let_def)

lemma fl_overflow_2_1024: "fl (2 ^ 1024) = PInf"
proof (rule fl_overflowI [where e = 1024 and n = "2 ^ 52"])
  show "(0::real) < 2 ^ 1024" by simp
  show "binade (2 ^ 1024) = 1024"
    by (rule binade_eqI) (simp_all add: pow2_def)
  show "rne (2 ^ 1024 / pow2 (1024 - 52)) = 2 ^ 52"
    by (simp add: pow2_def rne_numeral)
  show "2 ^ 1024 \<le> \<bar>real_of_int (2 ^ 52) * pow2 (1024 - 52)\<bar>"
    by (simp add: pow2_def)
qed

lemma var_overflow:
  "calculateVaR64 (Fin 0) (Fin (2 ^ 1023)) cl (Fin 1008) = NaN \<and>
   calculateVaR64 (Fin (2 ^ 1023)) (Fin 2) (lit 0.95) (Fin 252) = PInf"
proof -
  have four: "fl 4 = Fin 4"
  proof -
    have "rne (4 / pow2 (2 - 52)) = 4503599627370496"
      by (rule rne_eqI) (simp_all add: pow2_def)
    then have "fl 4 = Fin (of_int 4503599627370496 * pow2 (2 - 52))"
      by (intro fl_eqI) (simp_all add: pow2_def)
    then show ?thesis by (simp add: pow2_def)
  qed
  have two: "fl 2 = Fin 2"
  proof -
    have "rne (2 / pow2 (1 - 52)) = 4503599627370496"
      by (rule rne_eqI) (simp_all add: pow2_def)
    then have "fl 2 = Fin (of_int 4503599627370496 * pow2 (1 - 52))"
      by (intro fl_eqI) (simp_all add: pow2_def)
    then show ?thesis by (simp add: pow2_def)
  qed
  have one: "fl 1 = Fin 1"
  proof -
    have "rne (1 / pow2 (0 - 52)) = 4503599627370496"
      by (rule rne_eqI) (simp_all add: pow2_def)
    then have "fl 1 = Fin (of_int 4503599627370496 * pow2 (0 - 52))"
      by (intro fl_eqI) (simp_all add: pow2_def)
    then show ?thesis by (simp add: pow2_def)
  qed
  have big: "fl (2 ^ 1023 * 2) = PInf"
    using fl_overflow_2_1024 by simp
  have big2: "fl (2 * 2 ^ 1023) = PInf"
    using fl_overflow_2_1024 by simp
  have s4: "sqrt64 (div64 (Fin 1008) (Fin 252)) = Fin 2"
    using four two by (simp add: sqrt64_def div64_def round64_def)
  have s1: "sqrt64 (div64 (Fin 252) (Fin 252)) = Fin 1"
    using one by (simp add: sqrt64_def div64_def round64_def)
  have a: "mul64 (Fin (2 ^ 1023)) (Fin 2) = PInf"
    using big by (simp add: mul64_def round64_def)
  have "mul64 (Fin 0) PInf = NaN"
    by (simp add: mul64_def round64_def signed_inf_def)
  then have c1: "calculateVaR64 (Fin 0) (Fin (2 ^ 1023)) cl (Fin 1008) = NaN"
    unfolding calculateVaR64_def Let_def s4 a by (simp add: mul64_def round64_def)
  have b: "mul64 (Fin 2) (Fin 1) = Fin 2"
    using two by (simp add: mul64_def round64_def)
  have z: "zScore64 (lit 0.95) = lit 1.645" by (rule zScore64_095)
  have "mul64 PInf (Fin (3704210693512233 / 2251799813685248)) = PInf"
    by (simp add: mul64_def round64_def signed_inf_def)
  then have c2: "calculateVaR64 (Fin (2 ^ 1023)) (Fin 2) (lit 0.95) (Fin 252) = PInf"
    unfolding calculateVaR64_def Let_def s1 b a z lit_1645 by simp
  from c1 c2 show ?thesis by simp
qed

end
